theory Spec2Isabelle
  imports Main
begin

section \<open>Data model (types.ts, errors.ts)\<close>

text \<open>
  The client under verification is \<open>FetchtiumClient\<close> of \<open>src/client.ts\<close> with its
  error class \<open>FetchtiumError\<close> of \<open>src/errors.ts\<close> and the classifier of
  \<open>src/utils.ts\<close>. JavaScript numbers that count things (\<open>maxSize\<close>, \<open>maxRetries\<close>,
  \<open>maxConcurrent\<close>, \<open>concurrency\<close>, HTTP status codes) are natural numbers; times and
  delays are integers in milliseconds (seconds for \<open>ttl\<close> and \<open>Retry-After\<close>).
\<close>

datatype ErrorCode =
    INVALID_URL | UNSUPPORTED_PLATFORM | PLATFORM_DISABLED | PRIVATE_CONTENT
  | COOKIE_REQUIRED | COOKIE_EXPIRED | CONTENT_NOT_FOUND | NO_MEDIA_FOUND
  | RATE_LIMITED | NETWORK_ERROR | TIMEOUT | API_ERROR | PARSE_ERROR
  | CHECKPOINT_REQUIRED | SCRAPE_ERROR | LOGIN_REQUIRED | UNAUTHORIZED
  | FORBIDDEN | BAD_REQUEST | NO_MEDIA | STORY_EXPIRED | AGE_RESTRICTED
  | CONTENT_REMOVED | MAINTENANCE | INTERNAL_ERROR

datatype Platform =
    instagram | facebook | twitter | tiktok | youtube | weibo | reddit
  | bilibili | soundcloud | pixiv | erome | eporner | pornhub | rule34video

datatype Severity = low | medium | high | critical

text \<open>
  \<open>FetchtiumResponse\<close>: the parsed JSON body of the fetch endpoint. \<open>resp_code\<close> and
  \<open>resp_error\<close> are the optional \<open>code\<close> and \<open>error\<close> members, \<open>resp_issues\<close> is
  \<open>data?.issues || []\<close>, \<open>resp_payload\<close> stands for the media data, which the client
  never inspects.
\<close>

record FetchtiumResponse =
  resp_success :: bool
  resp_code :: "ErrorCode option"
  resp_error :: "string option"
  resp_issues :: "string list"
  resp_payload :: string

section \<open>URL and platform classifier (utils.ts)\<close>

text \<open>
  \<open>new URL(url)\<close> is the platform's WHATWG parser, not part of the repository: it is a
  parameter \<open>parse\<close>, \<open>None\<close> when the constructor throws, otherwise the \<open>protocol\<close>
  and \<open>hostname\<close> members the code reads.
\<close>

record URL =
  url_protocol :: string
  url_hostname :: string

definition isValidURL :: "(string \<Rightarrow> URL option) \<Rightarrow> string \<Rightarrow> bool" where
  "isValidURL parse url =
     (case parse url of
        None \<Rightarrow> False
      | Some parsed \<Rightarrow> url_protocol parsed \<in> set [''http:'', ''https:''])"

text \<open>
  Every pattern of \<open>PLATFORM_PATTERNS\<close> is a regular expression without anchors whose
  only metacharacter is the escaped dot, for instance \<open>/instagram\.com/\<close>: it is the
  literal text, and \<open>pattern.test(hostname)\<close> holds iff that text occurs somewhere in
  the hostname. The table is in the order of the object literal, which is the order
  \<open>Object.entries\<close> iterates in.
\<close>

definition PLATFORM_PATTERNS :: "(Platform \<times> string list) list" where
  "PLATFORM_PATTERNS =
     [(instagram, [''instagram.com'', ''instagr.am'']),
      (facebook, [''facebook.com'', ''fb.watch'', ''fb.com'']),
      (twitter, [''twitter.com'', ''x.com'', ''t.co'']),
      (tiktok, [''tiktok.com'', ''vm.tiktok.com'']),
      (youtube, [''youtube.com'', ''youtu.be'', ''youtube.shorts'']),
      (weibo, [''weibo.com'', ''weibo.cn'']),
      (reddit, [''reddit.com'', ''redd.it'']),
      (bilibili, [''bilibili.com'', ''b23.tv'']),
      (soundcloud, [''soundcloud.com'']),
      (pixiv, [''pixiv.net'']),
      (erome, [''erome.com'']),
      (eporner, [''eporner.com'']),
      (pornhub, [''pornhub.com'']),
      (rule34video, [''rule34video.com''])]"

fun starts_with :: "string \<Rightarrow> string \<Rightarrow> bool" where
  "starts_with [] s = True"
| "starts_with (p # ps) [] = False"
| "starts_with (p # ps) (c # cs) = (p = c \<and> starts_with ps cs)"

fun regex_test :: "string \<Rightarrow> string \<Rightarrow> bool" where
  "regex_test pattern [] = starts_with pattern []"
| "regex_test pattern (c # cs) = (starts_with pattern (c # cs) \<or> regex_test pattern cs)"

text \<open>\<open>toLowerCase\<close> on the ASCII letters; a parsed hostname has no other upper case.\<close>

definition toLowerCase_char :: "char \<Rightarrow> char" where
  "toLowerCase_char c =
     (case map_of (zip ''ABCDEFGHIJKLMNOPQRSTUVWXYZ'' ''abcdefghijklmnopqrstuvwxyz'') c of
        Some l \<Rightarrow> l
      | None \<Rightarrow> c)"

definition toLowerCase :: "string \<Rightarrow> string" where
  "toLowerCase s = map toLowerCase_char s"

text \<open>The loop over the table: the first platform one of whose patterns tests true.\<close>

fun first_match :: "(Platform \<times> string list) list \<Rightarrow> string \<Rightarrow> Platform option" where
  "first_match [] hostname = None"
| "first_match ((platform, patterns) # rest) hostname =
     (if list_ex (\<lambda>pattern. regex_test pattern hostname) patterns then Some platform
      else first_match rest hostname)"

definition detectPlatform :: "(string \<Rightarrow> URL option) \<Rightarrow> string \<Rightarrow> Platform option" where
  "detectPlatform parse url =
     (if \<not> isValidURL parse url then None
      else case parse url of
             None \<Rightarrow> None
           | Some parsed \<Rightarrow> first_match PLATFORM_PATTERNS (toLowerCase (url_hostname parsed)))"

section \<open>Response cache (client.ts, getFromCache and setCache)\<close>

text \<open>
  The cache is a JavaScript \<open>Map\<close>, which iterates in insertion order: an association
  list with the oldest entry first. \<open>Map.set\<close> on a present key replaces the value in
  place, on an absent key appends; \<open>Map.delete\<close> removes the key; \<open>Map.get\<close> is
  \<open>map_of\<close>; \<open>Map.size\<close> is the length, the keys being distinct.
\<close>

record CacheEntry =
  entry_data :: FetchtiumResponse
  entry_timestamp :: int
  entry_ttl :: int

type_synonym Cache = "(string \<times> CacheEntry) list"

record CacheConfig =
  cache_enabled :: bool
  cache_ttl :: int
  cache_maxSize :: nat

fun map_set :: "'k \<Rightarrow> 'v \<Rightarrow> ('k \<times> 'v) list \<Rightarrow> ('k \<times> 'v) list" where
  "map_set k v [] = [(k, v)]"
| "map_set k v (p # ps) = (if fst p = k then (k, v) # ps else p # map_set k v ps)"

definition map_delete :: "'k \<Rightarrow> ('k \<times> 'v) list \<Rightarrow> ('k \<times> 'v) list" where
  "map_delete k m = filter (\<lambda>p. fst p \<noteq> k) m"

definition generateCacheKey :: "string \<Rightarrow> string" where
  "generateCacheKey url = ''fetch:'' @ url"

text \<open>
  \<open>getFromCache\<close> at clock reading \<open>now\<close> (\<open>Date.now()\<close>): the looked-up response
  (\<open>None\<close> for \<open>null\<close>) and the cache afterwards.
\<close>

definition getFromCache ::
  "CacheConfig \<Rightarrow> int \<Rightarrow> string \<Rightarrow> Cache \<Rightarrow> FetchtiumResponse option \<times> Cache" where
  "getFromCache cfg now url cache =
     (if \<not> cache_enabled cfg then (None, cache)
      else
        let key = generateCacheKey url in
        case map_of cache key of
          None \<Rightarrow> (None, cache)
        | Some entry \<Rightarrow>
            if now - entry_timestamp entry > entry_ttl entry * 1000
            then (None, map_delete key cache)
            else (Some (entry_data entry), cache))"

text \<open>
  \<open>setCache\<close>: when the size has reached \<open>maxSize\<close> the first key of the iteration
  order is deleted if there is one and it is truthy (a non-empty string), then the entry
  is set.
\<close>

definition evictOldest :: "Cache \<Rightarrow> Cache" where
  "evictOldest cache =
     (case cache of
        [] \<Rightarrow> cache
      | (oldestKey, _) # _ \<Rightarrow> if oldestKey \<noteq> [] then map_delete oldestKey cache else cache)"

definition setCache ::
  "CacheConfig \<Rightarrow> int \<Rightarrow> string \<Rightarrow> FetchtiumResponse \<Rightarrow> Cache \<Rightarrow> Cache" where
  "setCache cfg now url d cache =
     (if \<not> cache_enabled cfg then cache
      else
        let cache1 = (if length cache \<ge> cache_maxSize cfg then evictOldest cache else cache);
            key = generateCacheKey url
        in map_set key \<lparr>entry_data = d, entry_timestamp = now, entry_ttl = cache_ttl cfg\<rparr> cache1)"

text \<open>A sequence of puts, each with its own clock reading, URL and response.\<close>

fun setCache_all :: "CacheConfig \<Rightarrow> (int \<times> string \<times> FetchtiumResponse) list \<Rightarrow> Cache \<Rightarrow> Cache" where
  "setCache_all cfg [] cache = cache"
| "setCache_all cfg ((now, url, d) # rest) cache = setCache_all cfg rest (setCache cfg now url d cache)"

text \<open>Well-formed caches: keys are distinct and are generated keys.\<close>

definition cache_wf :: "Cache \<Rightarrow> bool" where
  "cache_wf cache \<longleftrightarrow> distinct (map fst cache) \<and> (\<forall>k \<in> set (map fst cache). take 6 k = ''fetch:'')"

text \<open>The association-list entry that a put of \<open>(now, url, d)\<close> stores.\<close>

definition mk_entry :: "CacheConfig \<Rightarrow> int \<times> string \<times> FetchtiumResponse \<Rightarrow> string \<times> CacheEntry" where
  "mk_entry cfg op = (generateCacheKey (fst (snd op)),
      \<lparr>entry_data = snd (snd op), entry_timestamp = fst op, entry_ttl = cache_ttl cfg\<rparr>)"

section \<open>Error model (errors.ts)\<close>

text \<open>
  \<open>FetchtiumError\<close> with the members that the client reads or that tell two errors
  apart: \<open>code\<close>, \<open>message\<close>, \<open>statusCode\<close>, \<open>context\<close> and \<open>severity\<close>. The list of
  suggestions, the wrapped cause, the stack and the context's time stamp and request id
  are free text or clock and random readings; no branch of the client depends on them
  and they are left out.
\<close>

record ErrorContext =
  ctx_url :: "string option"
  ctx_platform :: "Platform option"
  ctx_retryAttempt :: "nat option"
  ctx_maxRetries :: "int option"
  ctx_retryAfter :: "int option"

record FetchtiumError =
  err_code :: ErrorCode
  err_message :: string
  err_statusCode :: "nat option"
  err_context :: ErrorContext
  err_severity :: Severity

definition emptyContext :: ErrorContext where
  "emptyContext = \<lparr>ctx_url = None, ctx_platform = None, ctx_retryAttempt = None,
                     ctx_maxRetries = None, ctx_retryAfter = None\<rparr>"

text \<open>
  The constructor \<open>new FetchtiumError(code, message, options)\<close>: \<open>context\<close> defaults to
  the empty object and \<open>severity\<close> to medium.
\<close>

definition newFetchtiumError ::
  "ErrorCode \<Rightarrow> string \<Rightarrow> nat option \<Rightarrow> ErrorContext option \<Rightarrow> Severity option \<Rightarrow> FetchtiumError" where
  "newFetchtiumError code message statusCode context severity =
     \<lparr>err_code = code, err_message = message, err_statusCode = statusCode,
      err_context = (case context of None \<Rightarrow> emptyContext | Some c \<Rightarrow> c),
      err_severity = (case severity of None \<Rightarrow> medium | Some s \<Rightarrow> s)\<rparr>"

text \<open>A number inside a template string: its decimal digits, with a sign when negative.\<close>

definition digit_char :: "nat \<Rightarrow> char" where
  "digit_char d = ''0123456789'' ! d"

fun decimal :: "nat \<Rightarrow> string" where
  "decimal n = (if 10 \<le> n then decimal (n div 10) @ [digit_char (n mod 10)] else [digit_char n])"

declare decimal.simps [simp del]

definition number_to_string :: "int \<Rightarrow> string" where
  "number_to_string x = (if 0 \<le> x then decimal (nat x) else CHR ''-'' # decimal (nat (- x)))"

definition fromAPIError :: "ErrorCode \<times> string \<Rightarrow> nat option \<Rightarrow> FetchtiumError" where
  "fromAPIError error statusCode = newFetchtiumError (fst error) (snd error) statusCode None None"

definition networkError :: "string \<Rightarrow> FetchtiumError" where
  "networkError message = newFetchtiumError NETWORK_ERROR message None None (Some medium)"

definition timeoutError :: "int \<Rightarrow> FetchtiumError" where
  "timeoutError timeout =
     newFetchtiumError TIMEOUT (''Request timed out after '' @ number_to_string timeout @ ''ms'')
       None None (Some medium)"

definition invalidURL :: "string \<Rightarrow> FetchtiumError" where
  "invalidURL url =
     newFetchtiumError INVALID_URL (''Invalid or unsupported URL: '' @ url) None
       (Some (emptyContext\<lparr>ctx_url := Some url\<rparr>)) (Some low)"

definition invalidAPIKey :: FetchtiumError where
  "invalidAPIKey = newFetchtiumError UNAUTHORIZED ''Invalid or missing API key'' (Some 401) None (Some high)"

text \<open>
  \<open>rateLimited(retryAfter?)\<close>: the argument, when truthy (defined and not zero), goes
  into the message (and into the first suggestion); the options passed to the
  constructor are \<open>statusCode\<close>, \<open>severity\<close> and \<open>suggestions\<close>, with no \<open>context\<close>.
\<close>

definition rateLimited :: "int option \<Rightarrow> FetchtiumError" where
  "rateLimited retryAfter =
     (let message =
        (case retryAfter of
           None \<Rightarrow> ''Rate limited. Please try again later''
         | Some r \<Rightarrow>
             if r \<noteq> 0 then ''Rate limited. Retry after '' @ number_to_string r @ '' seconds''
             else ''Rate limited. Please try again later'')
      in newFetchtiumError RATE_LIMITED message (Some 429) None (Some medium))"

definition serverError :: "string \<Rightarrow> nat \<Rightarrow> FetchtiumError" where
  "serverError message statusCode =
     newFetchtiumError INTERNAL_ERROR message (Some statusCode) None (Some high)"

definition unknownError :: "string \<Rightarrow> FetchtiumError" where
  "unknownError message = newFetchtiumError API_ERROR message None None (Some high)"

text \<open>
  What an operation of the client can throw: a \<open>FetchtiumError\<close>, some other exception
  (for the client a \<open>TypeError\<close>, with its message), or the value \<open>undefined\<close>.
  \<open>asFetchtiumError\<close> is \<open>error instanceof FetchtiumError ? error : undefined\<close>.
\<close>

datatype Thrown = Fetchtium FetchtiumError | TypeError string | ThrownUndefined

definition asFetchtiumError :: "Thrown \<Rightarrow> FetchtiumError option" where
  "asFetchtiumError error = (case error of Fetchtium e \<Rightarrow> Some e | _ \<Rightarrow> None)"

section \<open>Concurrency gate (client.ts, executeWithRateLimit and processQueue)\<close>

text \<open>
  The client runs on one thread with cooperative suspension: between two suspension
  points the code runs without interruption. The gate is therefore a state machine whose
  steps are the three uninterrupted pieces of code that touch it:
  \<^item> \<open>Call\<close>: a caller enters \<open>executeWithRateLimit\<close>; either the counter is below the
    limit, it is incremented and \<open>fn()\<close> starts, or a timer is armed and the caller is
    pushed on \<open>requestQueue\<close>;
  \<^item> \<open>Complete c\<close>: the \<open>fn()\<close> of the admitted caller \<open>c\<close> settles; the \<open>finally\<close>
    handler (of \<open>executeWithRateLimit\<close> for a caller admitted at once, of
    \<open>processQueue\<close> for one admitted from the queue) decrements the counter and runs
    \<open>processQueue\<close>;
  \<^item> \<open>QueueTimeout c\<close>: the timer armed for the queued caller \<open>c\<close> fires, that is, its
    wait has exceeded \<open>queueTimeout\<close>; the callback rejects the caller with
    \<open>timeoutError\<close> and splices its item out of the queue.
  Callers are numbered in arrival order (\<open>next_id\<close>). Besides the two members of the
  client (\<open>activeRequests\<close>, \<open>requestQueue\<close>) the state records which timers are armed,
  which callers are executing their request body (\<open>running\<close>), the order in which
  callers were admitted (\<open>admitted\<close>) and who was rejected by a timer (\<open>rejected\<close>).
\<close>

record RateLimitConfig =
  maxConcurrent :: nat
  queueTimeout :: int

record Gate =
  activeRequests :: int
  requestQueue :: "nat list"
  timers :: "nat list"
  running :: "nat list"
  admitted :: "nat list"
  rejected :: "(nat \<times> FetchtiumError) list"
  next_id :: nat

datatype GateEvent = Call | Complete nat | QueueTimeout nat

definition gate_init :: Gate where
  "gate_init = \<lparr>activeRequests = 0, requestQueue = [], timers = [], running = [],
                 admitted = [], rejected = [], next_id = 0\<rparr>"

definition executeWithRateLimit :: "RateLimitConfig \<Rightarrow> Gate \<Rightarrow> Gate" where
  "executeWithRateLimit cfg g =
     (let caller = next_id g in
      if activeRequests g < int (maxConcurrent cfg)
      then g\<lparr>activeRequests := activeRequests g + 1,
             running := running g @ [caller],
             admitted := admitted g @ [caller],
             next_id := caller + 1\<rparr>
      else g\<lparr>timers := timers g @ [caller],
             requestQueue := requestQueue g @ [caller],
             next_id := caller + 1\<rparr>)"

text \<open>
  The loop of \<open>processQueue\<close>; the list argument is the queue that the loop condition
  reads. Starting \<open>item.fn()\<close> clears the item's timer before \<open>fn()\<close> is called.
\<close>

fun processQueue_loop :: "RateLimitConfig \<Rightarrow> nat list \<Rightarrow> Gate \<Rightarrow> Gate" where
  "processQueue_loop cfg [] g = g"
| "processQueue_loop cfg (item # rest) g =
     (if activeRequests g < int (maxConcurrent cfg)
      then processQueue_loop cfg rest
             (g\<lparr>requestQueue := rest,
                activeRequests := activeRequests g + 1,
                timers := removeAll item (timers g),
                running := running g @ [item],
                admitted := admitted g @ [item]\<rparr>)
      else g)"

definition processQueue :: "RateLimitConfig \<Rightarrow> Gate \<Rightarrow> Gate" where
  "processQueue cfg g = processQueue_loop cfg (requestQueue g) g"

definition complete :: "RateLimitConfig \<Rightarrow> nat \<Rightarrow> Gate \<Rightarrow> Gate" where
  "complete cfg caller g =
     (if caller \<in> set (running g)
      then processQueue cfg
             (g\<lparr>running := removeAll caller (running g),
                activeRequests := activeRequests g - 1\<rparr>)
      else g)"

text \<open>
  The timer callback: \<open>reject(timeoutError)\<close>, then \<open>findIndex\<close> and \<open>splice\<close> remove
  the caller's item if it is found. A timer that was cleared never fires, and only a
  caller that is executing can complete: such events leave the state as it is.
\<close>

definition queueTimeoutFires :: "RateLimitConfig \<Rightarrow> nat \<Rightarrow> Gate \<Rightarrow> Gate" where
  "queueTimeoutFires cfg caller g =
     (if caller \<in> set (timers g)
      then g\<lparr>rejected := rejected g @ [(caller, timeoutError (queueTimeout cfg))],
             requestQueue := remove1 caller (requestQueue g),
             timers := removeAll caller (timers g)\<rparr>
      else g)"

fun gate_step :: "RateLimitConfig \<Rightarrow> Gate \<Rightarrow> GateEvent \<Rightarrow> Gate" where
  "gate_step cfg g Call = executeWithRateLimit cfg g"
| "gate_step cfg g (Complete caller) = complete cfg caller g"
| "gate_step cfg g (QueueTimeout caller) = queueTimeoutFires cfg caller g"

definition gate_run :: "RateLimitConfig \<Rightarrow> GateEvent list \<Rightarrow> Gate" where
  "gate_run cfg events = foldl (gate_step cfg) gate_init events"

text \<open>
  The invariant of the reachable gate states. Inside the loop of \<open>processQueue\<close> only
  \<open>gate_weak\<close> holds: the counter has been decremented and the queue may still be
  non-empty.
\<close>

definition gate_weak :: "RateLimitConfig \<Rightarrow> Gate \<Rightarrow> bool" where
  "gate_weak cfg g \<longleftrightarrow>
     activeRequests g = int (length (running g))
   \<and> activeRequests g \<le> int (maxConcurrent cfg)
   \<and> sorted_wrt (<) (requestQueue g)
   \<and> sorted_wrt (<) (admitted g)
   \<and> (\<forall>a \<in> set (admitted g). \<forall>q \<in> set (requestQueue g). a < q)
   \<and> (\<forall>c \<in> set (admitted g). c < next_id g)
   \<and> (\<forall>c \<in> set (requestQueue g). c < next_id g)
   \<and> set (timers g) = set (requestQueue g)
   \<and> set (running g) \<subseteq> set (admitted g)
   \<and> distinct (running g)
   \<and> (\<forall>r \<in> set (rejected g).
         fst r < next_id g \<and> fst r \<notin> set (admitted g) \<and> fst r \<notin> set (requestQueue g))"

definition gate_inv :: "RateLimitConfig \<Rightarrow> Gate \<Rightarrow> bool" where
  "gate_inv cfg g \<longleftrightarrow>
     gate_weak cfg g \<and> (requestQueue g \<noteq> [] \<longrightarrow> activeRequests g = int (maxConcurrent cfg))"

section \<open>HTTP transport (client.ts, request and handleHTTPError)\<close>

text \<open>
  One exchange with the remote service, as the global \<open>fetch\<close> and the body readers
  present it to the client: the call is aborted by the timeout, fails with a
  \<open>TypeError\<close> (network failure), fails with some other exception, or yields a response.
  Of a response the client reads the status, the \<open>Retry-After\<close> header, the \<open>error\<close>
  member of a JSON error body (code and message, \<open>None\<close> when the body does not parse or
  has no such member), the result of \<open>response.json()\<close> (\<open>Inl\<close> the message of the
  exception it throws, \<open>Inr None\<close> the JSON value \<open>null\<close>), and for the binary endpoints the text, the blob and the file
  name captured from the \<open>Content-Disposition\<close> header.
\<close>

record HttpResponse =
  http_status :: nat
  http_retryAfter :: "string option"
  http_errorBody :: "(ErrorCode \<times> string) option"
  http_json :: "string + FetchtiumResponse option"
  http_text :: string
  http_blob :: string
  http_dispositionFilename :: "string option"

datatype NetOutcome =
    Aborted
  | NetworkFailure string
  | OtherFailure string
  | Responded HttpResponse

definition http_ok :: "HttpResponse \<Rightarrow> bool" where
  "http_ok r \<longleftrightarrow> 200 \<le> http_status r \<and> http_status r \<le> 299"

text \<open>
  \<open>handleHTTPError\<close> always throws; the model returns the error thrown. \<open>parseInt\<close> is
  the JavaScript built-in, a parameter (\<open>None\<close> for \<open>NaN\<close>); it is applied to a truthy
  (non-empty) header value only.
\<close>

definition handleHTTPError :: "(string \<Rightarrow> int option) \<Rightarrow> HttpResponse \<Rightarrow> FetchtiumError" where
  "handleHTTPError parseInt response =
     (let status = http_status response; errorBody = http_errorBody response in
      if status = 400 then
        (case errorBody of
           Some error \<Rightarrow> fromAPIError error (Some status)
         | None \<Rightarrow> newFetchtiumError BAD_REQUEST ''Bad request'' (Some status) None None)
      else if status = 401 then invalidAPIKey
      else if status = 403 then
        (case errorBody of
           Some error \<Rightarrow> fromAPIError error (Some status)
         | None \<Rightarrow>
             newFetchtiumError FORBIDDEN ''Access forbidden - content may be private or age-restricted''
               (Some status) None None)
      else if status = 404 then
        newFetchtiumError CONTENT_NOT_FOUND ''Content not found'' (Some status) None None
      else if status = 429 then
        rateLimited
          (case http_retryAfter response of
             None \<Rightarrow> None
           | Some retryAfter \<Rightarrow> if retryAfter \<noteq> [] then parseInt retryAfter else None)
      else if status \<in> set [500, 502, 503, 504] then
        serverError
          (case errorBody of
             Some error \<Rightarrow>
               if snd error \<noteq> [] then snd error else ''Server error ('' @ decimal status @ '')''
           | None \<Rightarrow> ''Server error ('' @ decimal status @ '')'')
          status
      else
        (case errorBody of
           Some error \<Rightarrow> fromAPIError error (Some status)
         | None \<Rightarrow> serverError (''HTTP error '' @ decimal status) status))"

text \<open>\<open>request\<close>: the outcome of the exchange turned into parsed JSON or the error thrown.\<close>

definition request ::
  "int \<Rightarrow> (string \<Rightarrow> int option) \<Rightarrow> NetOutcome \<Rightarrow> FetchtiumError + FetchtiumResponse option" where
  "request timeout parseInt outcome =
     (case outcome of
        Aborted \<Rightarrow> Inl (timeoutError timeout)
      | NetworkFailure message \<Rightarrow> Inl (networkError message)
      | OtherFailure message \<Rightarrow> Inl (unknownError message)
      | Responded response \<Rightarrow>
          if \<not> http_ok response then Inl (handleHTTPError parseInt response)
          else (case http_json response of
                  Inl message \<Rightarrow> Inl (unknownError message)
                | Inr data \<Rightarrow> Inr data))"

section \<open>The client, one caller at a time (client.ts)\<close>

record RetryConfig =
  maxRetries :: int
  retryDelay :: int
  backoffMultiplier :: int
  retryableErrors :: "ErrorCode list"

record ClientConfig =
  cfg_timeout :: int
  retryConfig :: RetryConfig
  cacheConfig :: CacheConfig
  rateLimitConfig :: RateLimitConfig

text \<open>
  What the client finds around it: the URL parser and \<open>parseInt\<close> of the platform, and
  the remote service, which answers the \<open>k\<close>-th transport invocation (counted from 0)
  with \<open>network k\<close>, the time the exchange takes and its outcome.
\<close>

record World =
  parseURL :: "string \<Rightarrow> URL option"
  parseInt :: "string \<Rightarrow> int option"
  network :: "nat \<Rightarrow> int \<times> NetOutcome"

text \<open>
  The state of a client used by one caller at a time: the cache, the clock, the number
  of transport invocations made so far, and the durations passed to \<open>sleep\<close>.
\<close>

record ClientState =
  st_cache :: Cache
  st_now :: int
  st_calls :: nat
  st_slept :: "int list"

definition validateURL :: "(string \<Rightarrow> URL option) \<Rightarrow> string \<Rightarrow> FetchtiumError + unit" where
  "validateURL parse url =
     (if url = [] then Inl (invalidURL url)
      else if \<not> isValidURL parse url then Inl (invalidURL url)
      else Inr ())"

definition issueMap :: "(string \<times> ErrorCode) list" where
  "issueMap =
     [(''login_required'', LOGIN_REQUIRED), (''checkpoint'', CHECKPOINT_REQUIRED),
      (''cookies_required'', COOKIE_REQUIRED), (''no_healthy_cookies'', COOKIE_REQUIRED),
      (''all_cookies_failed'', COOKIE_REQUIRED), (''no_media'', NO_MEDIA_FOUND),
      (''private'', PRIVATE_CONTENT), (''private_or_friends'', PRIVATE_CONTENT),
      (''age_restricted'', AGE_RESTRICTED), (''content_removed'', CONTENT_REMOVED),
      (''story_expired'', STORY_EXPIRED), (''rate_limited'', RATE_LIMITED),
      (''invalid_url'', INVALID_URL), (''unsupported_platform'', UNSUPPORTED_PLATFORM),
      (''parse_error'', PARSE_ERROR)]"

definition mapIssueToErrorCode :: "string \<Rightarrow> ErrorCode" where
  "mapIssueToErrorCode issue =
     (case map_of issueMap (toLowerCase issue) of Some code \<Rightarrow> code | None \<Rightarrow> API_ERROR)"

fun join :: "string \<Rightarrow> string list \<Rightarrow> string" where
  "join sep [] = []"
| "join sep [x] = x"
| "join sep (x # y # ys) = x @ sep @ join sep (y # ys)"

text \<open>The error that \<open>fetch\<close> throws for a parsed body with \<open>success: false\<close>.\<close>

definition responseError :: "string \<Rightarrow> Platform \<Rightarrow> FetchtiumResponse \<Rightarrow> FetchtiumError" where
  "responseError url platform response =
     (let context = emptyContext\<lparr>ctx_url := Some url, ctx_platform := Some platform\<rparr> in
      case resp_code response of
        Some code \<Rightarrow>
          newFetchtiumError code
            (case resp_error response of
               Some m \<Rightarrow> if m \<noteq> [] then m else ''Unknown error''
             | None \<Rightarrow> ''Unknown error'')
            None (Some context) None
      | None \<Rightarrow>
          let issues = resp_issues response;
              issueCode = (case issues of [] \<Rightarrow> ''API_ERROR''
                           | i # _ \<Rightarrow> if i \<noteq> [] then i else ''API_ERROR'')
          in newFetchtiumError (mapIssueToErrorCode issueCode)
               (''Failed to fetch media: '' @
                  (if length issues > 0 then join '', '' issues else ''Unknown error''))
               None (Some context) None)"

text \<open>
  \<open>fetch\<close>. A lone caller finds \<open>activeRequests = 0\<close> at the gate: it is admitted when
  \<open>0 < maxConcurrent\<close>; otherwise it is queued, no completion ever frees capacity, and
  its timer rejects it after \<open>queueTimeout\<close>. When the parsed body is \<open>null\<close>, reading
  \<open>response.success\<close> throws a \<open>TypeError\<close>, which nothing in \<open>fetch\<close> catches.
\<close>

definition fetch ::
  "World \<Rightarrow> ClientConfig \<Rightarrow> string \<Rightarrow> ClientState \<Rightarrow> (Thrown + FetchtiumResponse) \<times> ClientState" where
  "fetch W cfg url st =
     (case validateURL (parseURL W) url of
        Inl e \<Rightarrow> (Inl (Fetchtium e), st)
      | Inr _ \<Rightarrow>
     (case detectPlatform (parseURL W) url of
        None \<Rightarrow>
          (Inl (Fetchtium (newFetchtiumError UNSUPPORTED_PLATFORM
                  (''URL does not match any supported platform: '' @ url) None None None)), st)
      | Some platform \<Rightarrow>
     (case getFromCache (cacheConfig cfg) (st_now st) url (st_cache st) of
        (Some cached, cache1) \<Rightarrow> (Inr cached, st\<lparr>st_cache := cache1\<rparr>)
      | (None, cache1) \<Rightarrow>
          let st1 = st\<lparr>st_cache := cache1\<rparr> in
          if \<not> 0 < maxConcurrent (rateLimitConfig cfg)
          then (Inl (Fetchtium (timeoutError (queueTimeout (rateLimitConfig cfg)))),
                st1\<lparr>st_now := st_now st1 + max 0 (queueTimeout (rateLimitConfig cfg))\<rparr>)
          else
            let exchange = network W (st_calls st1);
                st2 = st1\<lparr>st_calls := st_calls st1 + 1, st_now := st_now st1 + fst exchange\<rparr>
            in case request (cfg_timeout cfg) (parseInt W) (snd exchange) of
                 Inl e \<Rightarrow> (Inl (Fetchtium e), st2)
               | Inr None \<Rightarrow>
                   (Inl (TypeError ''Cannot read properties of null (reading success)''), st2)
               | Inr (Some response) \<Rightarrow>
                   if \<not> resp_success response
                   then (Inl (Fetchtium (responseError url platform response)), st2)
                   else (Inr response,
                         st2\<lparr>st_cache := setCache (cacheConfig cfg) (st_now st2) url response (st_cache st2)\<rparr>))))"

text \<open>
  \<open>merge\<close> and \<open>convert\<close> call the global \<open>fetch\<close> directly, past the cache and the
  gate. Their catch block rethrows a \<open>FetchtiumError\<close>, turns an abort into the timeout
  error and wraps anything else with \<open>unknownError\<close>.
\<close>

record MergeOptions =
  mo_url :: string
  mo_quality :: "string option"
  mo_filename :: "string option"

record ConvertOptions =
  co_url :: string
  co_format :: "string option"
  co_filename :: "string option"

record BlobResponse =
  blob_success :: bool
  blob_filename :: string
  blob_data :: string
  blob_size :: nat

definition truthy :: "string option \<Rightarrow> bool" where
  "truthy s \<longleftrightarrow> (case s of None \<Rightarrow> False | Some v \<Rightarrow> v \<noteq> [])"

definition binaryExchange ::
  "int \<Rightarrow> string \<Rightarrow> string \<Rightarrow> NetOutcome \<Rightarrow> FetchtiumError + BlobResponse" where
  "binaryExchange timeout failed defaultFilename outcome =
     (case outcome of
        Aborted \<Rightarrow> Inl (timeoutError timeout)
      | NetworkFailure message \<Rightarrow> Inl (unknownError message)
      | OtherFailure message \<Rightarrow> Inl (unknownError message)
      | Responded response \<Rightarrow>
          if \<not> http_ok response
          then Inl (newFetchtiumError INTERNAL_ERROR (failed @ http_text response)
                      (Some (http_status response)) None None)
          else
            let finalFilename =
                  (case http_dispositionFilename response of
                     Some m \<Rightarrow> if m \<noteq> [] then filter (\<lambda>c. c \<noteq> CHR 0x27 \<and> c \<noteq> CHR 0x22) m
                               else defaultFilename
                   | None \<Rightarrow> defaultFilename)
            in Inr \<lparr>blob_success = True, blob_filename = finalFilename,
                    blob_data = http_blob response, blob_size = length (http_blob response)\<rparr>)"

definition merge ::
  "World \<Rightarrow> ClientConfig \<Rightarrow> MergeOptions \<Rightarrow> ClientState \<Rightarrow> (FetchtiumError + BlobResponse) \<times> ClientState" where
  "merge W cfg options st =
     (case validateURL (parseURL W) (mo_url options) of
        Inl e \<Rightarrow> (Inl e, st)
      | Inr _ \<Rightarrow>
          if detectPlatform (parseURL W) (mo_url options) \<noteq> Some youtube
          then (Inl (newFetchtiumError UNSUPPORTED_PLATFORM ''Merge is only supported for YouTube URLs''
                       None None None), st)
          else if \<not> truthy (mo_quality options)
          then (Inl (newFetchtiumError BAD_REQUEST ''Quality parameter is required'' None None None), st)
          else
            let exchange = network W (st_calls st);
                st1 = st\<lparr>st_calls := st_calls st + 1, st_now := st_now st + fst exchange\<rparr>
            in (binaryExchange (cfg_timeout cfg) ''Merge failed: ''
                  (if truthy (mo_filename options) then the (mo_filename options) else ''merged'')
                  (snd exchange), st1))"

definition convert ::
  "World \<Rightarrow> ClientConfig \<Rightarrow> ConvertOptions \<Rightarrow> ClientState \<Rightarrow> (FetchtiumError + BlobResponse) \<times> ClientState" where
  "convert W cfg options st =
     (case validateURL (parseURL W) (co_url options) of
        Inl e \<Rightarrow> (Inl e, st)
      | Inr _ \<Rightarrow>
          if detectPlatform (parseURL W) (co_url options) = None
          then (Inl (newFetchtiumError UNSUPPORTED_PLATFORM ''URL does not match any supported platform''
                       None None None), st)
          else
            let format = (if truthy (co_format options) then the (co_format options) else ''mp3'') in
            if format \<noteq> ''mp3'' \<and> format \<noteq> ''m4a''
            then (Inl (newFetchtiumError BAD_REQUEST ''Format must be \"mp3\" or \"m4a\"'' None None None), st)
            else
              let exchange = network W (st_calls st);
                  st1 = st\<lparr>st_calls := st_calls st + 1, st_now := st_now st + fst exchange\<rparr>
              in (binaryExchange (cfg_timeout cfg) ''Audio conversion failed: ''
                    (if truthy (co_filename options) then the (co_filename options)
                     else ''audio_'' @ number_to_string (st_now st1))
                    (snd exchange), st1))"

section \<open>Retry orchestrator (client.ts, fetchWithRetry)\<close>

text \<open>
  The optional \<open>retryConfig\<close> argument is a partial record spread over the client's
  retry configuration (\<open>{ ...this.retryConfig, ...retryConfig }\<close>): every member it has
  replaces the client's, also a member that is there with the value \<open>undefined\<close>. The
  two members that steer the loop can therefore be undefined in the effective
  configuration, and \<open>maxRetries\<close> can be any number, negative ones included. (An
  undefined \<open>retryDelay\<close> or \<open>backoffMultiplier\<close> only turns the computed delay into
  \<open>NaN\<close>; these two members are modelled as absent or a number.)
\<close>

datatype 'a member = absent | explicitly_undefined | given 'a

record RetryOverride =
  ov_maxRetries :: "int member"
  ov_retryDelay :: "int option"
  ov_backoffMultiplier :: "int option"
  ov_retryableErrors :: "ErrorCode list member"

record EffectiveRetryConfig =
  eff_maxRetries :: "int option"
  eff_retryDelay :: int
  eff_backoffMultiplier :: int
  eff_retryableErrors :: "ErrorCode list option"

definition spread_member :: "'a \<Rightarrow> 'a member \<Rightarrow> 'a option" where
  "spread_member base m = (case m of absent \<Rightarrow> Some base | explicitly_undefined \<Rightarrow> None | given v \<Rightarrow> Some v)"

definition spreadRetryConfig :: "RetryConfig \<Rightarrow> RetryOverride option \<Rightarrow> EffectiveRetryConfig" where
  "spreadRetryConfig base override =
     (case override of
        None \<Rightarrow>
          \<lparr>eff_maxRetries = Some (maxRetries base), eff_retryDelay = retryDelay base,
           eff_backoffMultiplier = backoffMultiplier base,
           eff_retryableErrors = Some (retryableErrors base)\<rparr>
      | Some ov \<Rightarrow>
          \<lparr>eff_maxRetries = spread_member (maxRetries base) (ov_maxRetries ov),
           eff_retryDelay = (case ov_retryDelay ov of Some v \<Rightarrow> v | None \<Rightarrow> retryDelay base),
           eff_backoffMultiplier = (case ov_backoffMultiplier ov of Some v \<Rightarrow> v | None \<Rightarrow> backoffMultiplier base),
           eff_retryableErrors = spread_member (retryableErrors base) (ov_retryableErrors ov)\<rparr>)"

text \<open>
  The two comparisons of \<open>attempt\<close> with \<open>config.maxRetries\<close>: a comparison with
  \<open>undefined\<close> is false.
\<close>

definition attempt_le :: "nat \<Rightarrow> int option \<Rightarrow> bool" where
  "attempt_le attempt m = (case m of None \<Rightarrow> False | Some v \<Rightarrow> int attempt \<le> v)"

definition attempt_ge :: "nat \<Rightarrow> int option \<Rightarrow> bool" where
  "attempt_ge attempt m = (case m of None \<Rightarrow> False | Some v \<Rightarrow> int attempt \<ge> v)"

text \<open>\<open>sleep(ms)\<close>: the duration is recorded and the clock moves on (a negative duration waits 0).\<close>

definition sleep :: "int \<Rightarrow> ClientState \<Rightarrow> ClientState" where
  "sleep ms st = st\<lparr>st_slept := st_slept st @ [ms], st_now := st_now st + max 0 ms\<rparr>"

text \<open>
  The \<open>while\<close> loop of \<open>fetchWithRetry\<close> with its two variables \<open>attempt\<close> and
  \<open>lastError\<close> (\<open>None\<close> while it is undefined). An error that is not a
  \<open>FetchtiumError\<close> is rethrown at once. Calling \<open>includes\<close> on an undefined
  \<open>retryableErrors\<close> throws a \<open>TypeError\<close> out of the catch block. The context of a
  retried error is updated after the sleep; \<open>lastError\<close> is that same object. When the
  loop condition fails, \<open>throw lastError\<close> throws the last error, or \<open>undefined\<close> when
  the loop has never run.
\<close>

function retry_loop ::
  "World \<Rightarrow> ClientConfig \<Rightarrow> EffectiveRetryConfig \<Rightarrow> string \<Rightarrow> nat \<Rightarrow> FetchtiumError option \<Rightarrow> ClientState
     \<Rightarrow> (Thrown + FetchtiumResponse) \<times> ClientState" where
  "retry_loop W cfg config url attempt lastError st =
     (if attempt_le attempt (eff_maxRetries config) then
        (case fetch W cfg url st of
           (Inr result, st1) \<Rightarrow> (Inr result, st1)
         | (Inl thrown, st1) \<Rightarrow>
             (case asFetchtiumError thrown of
                None \<Rightarrow> (Inl thrown, st1)
              | Some error \<Rightarrow>
                  (case eff_retryableErrors config of
                     None \<Rightarrow>
                       (Inl (TypeError ''Cannot read properties of undefined (reading includes)''), st1)
                   | Some retryable \<Rightarrow>
                       if err_code error \<notin> set retryable \<or> attempt_ge attempt (eff_maxRetries config)
                       then (Inl (Fetchtium error), st1)
                       else
                         let attempt1 = attempt + 1;
                             delay = eff_retryDelay config * eff_backoffMultiplier config ^ (attempt1 - 1);
                             st2 = (case ctx_retryAfter (err_context error) of
                                      Some retryAfter \<Rightarrow>
                                        if err_statusCode error = Some 429 \<and> retryAfter \<noteq> 0
                                        then sleep (max delay (retryAfter * 1000)) st1
                                        else sleep delay st1
                                    | None \<Rightarrow> sleep delay st1);
                             error1 = error\<lparr>err_context := (err_context error)
                                        \<lparr>ctx_retryAttempt := Some attempt1,
                                         ctx_maxRetries := eff_maxRetries config\<rparr>\<rparr>
                         in retry_loop W cfg config url attempt1 (Some error1) st2)))
      else (case lastError of
              None \<Rightarrow> (Inl ThrownUndefined, st)
            | Some error \<Rightarrow> (Inl (Fetchtium error), st)))"
  by pat_completeness auto
termination
proof (relation "measure (\<lambda>(W, cfg, config, url, attempt, lastError, st).
          case eff_maxRetries config of None \<Rightarrow> 0 | Some m \<Rightarrow> nat (m + 1 - int attempt))",
       goal_cases)
  case 1
  show ?case by simp
next
  case (2 W cfg config url attempt lastError st)
  then show ?case
    by (auto simp: attempt_le_def attempt_ge_def split: option.splits)
qed

declare retry_loop.simps [simp del]

definition fetchWithRetry ::
  "World \<Rightarrow> ClientConfig \<Rightarrow> string \<Rightarrow> RetryOverride option \<Rightarrow> ClientState
     \<Rightarrow> (Thrown + FetchtiumResponse) \<times> ClientState" where
  "fetchWithRetry W cfg url override st =
     (case validateURL (parseURL W) url of
        Inl e \<Rightarrow> (Inl (Fetchtium e), st)
      | Inr _ \<Rightarrow> retry_loop W cfg (spreadRetryConfig (retryConfig cfg) override) url 0 None st)"

section \<open>Batch orchestrator (client.ts, fetchBatch)\<close>



type_synonym Task = "nat \<times> string"

type_synonym Outcomes = "nat \<Rightarrow> int \<times> (Thrown + FetchtiumResponse)"
















text \<open>Whether the call of a task fails, that is, its \<open>fetch\<close> throws.\<close>

definition fails :: "Outcomes \<Rightarrow> Task \<Rightarrow> bool" where
  "fails outcomes task = isl (snd (outcomes (fst task)))"

section \<open>Concrete configurations and inputs\<close>

definition resp0 :: FetchtiumResponse where
  "resp0 = \<lparr>resp_success = True, resp_code = None, resp_error = None, resp_issues = [], resp_payload = ''media''\<rparr>"

definition cfg0 :: CacheConfig where
  "cfg0 = \<lparr>cache_enabled = True, cache_ttl = 60, cache_maxSize = 10\<rparr>"

definition cfg2 :: CacheConfig where
  "cfg2 = \<lparr>cache_enabled = True, cache_ttl = 60, cache_maxSize = 2\<rparr>"

definition cfg_zero :: CacheConfig where
  "cfg_zero = \<lparr>cache_enabled = True, cache_ttl = 60, cache_maxSize = 0\<rparr>"

definition cache2 :: Cache where
  "cache2 = setCache_all cfg2 [(0, ''https://x.com/a'', resp0), (1, ''https://x.com/b'', resp0)] []"

definition ops3 :: "(int \<times> string \<times> FetchtiumResponse) list" where
  "ops3 = [(0, ''https://x.com/a'', resp0), (1, ''https://x.com/b'', resp0), (2, ''https://x.com/c'', resp0)]"

text \<open>
  A parser that agrees with the WHATWG one on the URLs used below and rejects every
  other string.
\<close>

definition parse0 :: "string \<Rightarrow> URL option" where
  "parse0 url =
     (if url = ''https://www.reddit.com/r/x'' then Some \<lparr>url_protocol = ''https:'', url_hostname = ''www.reddit.com''\<rparr>
      else if url = ''https://instagram.com.attacker.net/p'' then Some \<lparr>url_protocol = ''https:'', url_hostname = ''instagram.com.attacker.net''\<rparr>
      else if url = ''https://www.instagram.com/p/ABC123/'' then Some \<lparr>url_protocol = ''https:'', url_hostname = ''www.instagram.com''\<rparr>
      else if url = ''https://www.youtube.com/watch?v=xxx'' then Some \<lparr>url_protocol = ''https:'', url_hostname = ''www.youtube.com''\<rparr>
      else if url = ''ftp://www.instagram.com/p'' then Some \<lparr>url_protocol = ''ftp:'', url_hostname = ''www.instagram.com''\<rparr>
      else None)"

definition rl1 :: RateLimitConfig where
  "rl1 = \<lparr>maxConcurrent = 1, queueTimeout = 30000\<rparr>"

text \<open>
  The default configuration of the client (\<open>DEFAULT_CONFIG\<close>), an initial state, and a
  service that answers the first transport invocation with status 429 and the header
  \<open>Retry-After: 10\<close>, and every later one with a successful body.
\<close>

definition defaultRetry :: RetryConfig where
  "defaultRetry = \<lparr>maxRetries = 3, retryDelay = 1000, backoffMultiplier = 2,
                    retryableErrors = [NETWORK_ERROR, TIMEOUT, RATE_LIMITED, INTERNAL_ERROR]\<rparr>"

definition defaultConfig :: ClientConfig where
  "defaultConfig = \<lparr>cfg_timeout = 30000, retryConfig = defaultRetry,
                     cacheConfig = \<lparr>cache_enabled = False, cache_ttl = 300, cache_maxSize = 100\<rparr>,
                     rateLimitConfig = \<lparr>maxConcurrent = 5, queueTimeout = 30000\<rparr>\<rparr>"

definition st0 :: ClientState where
  "st0 = \<lparr>st_cache = [], st_now = 0, st_calls = 0, st_slept = []\<rparr>"

definition response429 :: HttpResponse where
  "response429 = \<lparr>http_status = 429, http_retryAfter = Some ''10'', http_errorBody = None,
                   http_json = Inl ''Unexpected end of JSON input'', http_text = [], http_blob = [],
                   http_dispositionFilename = None\<rparr>"

definition response200 :: HttpResponse where
  "response200 = \<lparr>http_status = 200, http_retryAfter = None, http_errorBody = None,
                   http_json = Inr (Some resp0), http_text = [], http_blob = [],
                   http_dispositionFilename = None\<rparr>"

definition world429 :: World where
  "world429 = \<lparr>parseURL = parse0,
                parseInt = (\<lambda>s. if s = ''10'' then Some 10 else None),
                network = (\<lambda>k. if k = 0 then (120, Responded response429) else (120, Responded response200))\<rparr>"

text \<open>
  Overrides: no retry at all, a retryable set without \<open>RATE_LIMITED\<close>, a negative
  \<open>maxRetries\<close>, and \<open>maxRetries\<close> given as \<open>undefined\<close>.
\<close>

definition noRetries :: RetryOverride where
  "noRetries = \<lparr>ov_maxRetries = given 0, ov_retryDelay = None, ov_backoffMultiplier = None,
                 ov_retryableErrors = absent\<rparr>"

definition networkOnly :: RetryOverride where
  "networkOnly = \<lparr>ov_maxRetries = absent, ov_retryDelay = None, ov_backoffMultiplier = None,
                   ov_retryableErrors = given [NETWORK_ERROR]\<rparr>"

definition negativeRetries :: RetryOverride where
  "negativeRetries = \<lparr>ov_maxRetries = given (- 1), ov_retryDelay = None, ov_backoffMultiplier = None,
                       ov_retryableErrors = absent\<rparr>"

definition undefinedRetries :: RetryOverride where
  "undefinedRetries = \<lparr>ov_maxRetries = explicitly_undefined, ov_retryDelay = None,
                        ov_backoffMultiplier = None, ov_retryableErrors = absent\<rparr>"









section \<open>Classifier lemmas\<close>

lemma starts_with_iff: "starts_with p s \<longleftrightarrow> (\<exists>post. s = p @ post)"
  by (induction p s rule: starts_with.induct) auto

lemma regex_test_iff: "regex_test p s \<longleftrightarrow> (\<exists>pre post. s = pre @ p @ post)"
proof (induction p s rule: regex_test.induct)
  case (1 pattern)
  then show ?case by (cases pattern) (auto)
next
  case (2 pattern c cs)
  show ?case
  proof
    assume "regex_test pattern (c # cs)"
    then consider "starts_with pattern (c # cs)" | "regex_test pattern cs" by auto
    then show "\<exists>pre post. c # cs = pre @ pattern @ post"
    proof cases
      case 1
      then obtain post where "c # cs = pattern @ post" by (auto simp: starts_with_iff)
      then have "c # cs = [] @ pattern @ post" by simp
      then show ?thesis by blast
    next
      case 2
      then obtain pre post where "cs = pre @ pattern @ post" using "2.IH" by auto
      then have "c # cs = (c # pre) @ pattern @ post" by simp
      then show ?thesis by blast
    qed
  next
    assume "\<exists>pre post. c # cs = pre @ pattern @ post"
    then obtain pre post where eq: "c # cs = pre @ pattern @ post" by blast
    show "regex_test pattern (c # cs)"
    proof (cases pre)
      case Nil
      then have "starts_with pattern (c # cs)" using eq by (auto simp: starts_with_iff)
      then show ?thesis by simp
    next
      case (Cons a pre')
      then have "cs = pre' @ pattern @ post" using eq by simp
      then have "regex_test pattern cs" using "2.IH" by blast
      then show ?thesis by simp
    qed
  qed
qed


lemma first_match_find:
  "first_match tbl h = map_option fst (find (\<lambda>e. list_ex (\<lambda>pattern. regex_test pattern h) (snd e)) tbl)"
  by (induction tbl h rule: first_match.induct) auto

lemma first_match_not_None:
  "(p, pats) \<in> set tbl \<Longrightarrow> pat \<in> set pats \<Longrightarrow> regex_test pat h \<Longrightarrow> first_match tbl h \<noteq> None"
  by (induction tbl h rule: first_match.induct) (auto simp: list_ex_iff)

lemma first_match_first:
  "distinct (map fst tbl) \<Longrightarrow> (p, pats) \<in> set tbl \<Longrightarrow> pat \<in> set pats \<Longrightarrow> regex_test pat h \<Longrightarrow>
   \<forall>e \<in> set (takeWhile (\<lambda>e. fst e \<noteq> p) tbl). \<forall>qp \<in> set (snd e). \<not> regex_test qp h \<Longrightarrow>
   first_match tbl h = Some p"
proof (induction tbl h rule: first_match.induct)
  case (1 hostname)
  then show ?case by simp
next
  case (2 platform patterns rest hostname)
  show ?case
  proof (cases "platform = p")
    case True
    then have "(p, pats) \<notin> set rest"
      using "2.prems"(1) by (auto simp: image_iff)
    then have "patterns = pats"
      using "2.prems"(2) True by auto
    then have "list_ex (\<lambda>pattern. regex_test pattern hostname) patterns"
      using "2.prems"(3,4) by (auto simp: list_ex_iff)
    then show ?thesis using True by simp
  next
    case False
    then have nomatch: "\<not> list_ex (\<lambda>pattern. regex_test pattern hostname) patterns"
      using "2.prems"(5) by (auto simp: list_ex_iff)
    have inrest: "(p, pats) \<in> set rest"
      using "2.prems"(2) False by auto
    have tw: "\<forall>e \<in> set (takeWhile (\<lambda>e. fst e \<noteq> p) rest). \<forall>qp \<in> set (snd e). \<not> regex_test qp hostname"
      using "2.prems"(5) False by simp
    have "first_match rest hostname = Some p"
      using "2.IH" [OF nomatch _ inrest "2.prems"(3,4) tw] "2.prems"(1) by simp
    then show ?thesis using nomatch by simp
  qed
qed

lemma distinct_PLATFORM_PATTERNS: "distinct (map fst PLATFORM_PATTERNS)"
  by (simp add: PLATFORM_PATTERNS_def)

subsection \<open>Unanchored substring matching (claim C9)\<close>

text \<open>
  The patterns are tested as unanchored substrings of the lowercased hostname, so a
  valid http/https URL whose hostname contains a pattern of platform \<open>p\<close> anywhere is
  never unsupported: it is classified as the first platform of the table, in table
  order, one of whose patterns occurs in the hostname. That platform is \<open>p\<close> itself
  when no pattern of a platform listed before \<open>p\<close> occurs in the hostname as well.
\<close>

lemma detectPlatform_first_match:
  assumes valid: "isValidURL parse url" and parsed: "parse url = Some parsed"
    and entry: "(p, pats) \<in> set PLATFORM_PATTERNS" and pat: "pat \<in> set pats"
    and sub: "toLowerCase (url_hostname parsed) = pre @ pat @ post"
  shows "detectPlatform parse url \<noteq> None
       \<and> detectPlatform parse url =
           map_option fst (find (\<lambda>e. list_ex (\<lambda>pattern. regex_test pattern (toLowerCase (url_hostname parsed))) (snd e))
                                PLATFORM_PATTERNS)
       \<and> ((\<forall>e \<in> set (takeWhile (\<lambda>e. fst e \<noteq> p) PLATFORM_PATTERNS).
              \<forall>qp \<in> set (snd e). \<not> regex_test qp (toLowerCase (url_hostname parsed)))
            \<longrightarrow> detectPlatform parse url = Some p)"
proof -
  have t: "regex_test pat (toLowerCase (url_hostname parsed))"
    using sub regex_test_iff by blast
  have d: "detectPlatform parse url = first_match PLATFORM_PATTERNS (toLowerCase (url_hostname parsed))"
    using valid parsed by (simp add: detectPlatform_def)
  show ?thesis
    unfolding d
    using first_match_not_None [OF entry pat t] first_match_first [OF distinct_PLATFORM_PATTERNS entry pat t]
    by (simp add: first_match_find)
qed

text \<open>A hostname ending in \<open>instagram.com.attacker.net\<close> is classified as instagram.\<close>

lemma detectPlatform_attacker_host:
  "detectPlatform parse0 ''https://instagram.com.attacker.net/p'' = Some instagram"
proof -
  have valid: "isValidURL parse0 ''https://instagram.com.attacker.net/p''"
    by (simp add: isValidURL_def parse0_def)
  have parsed: "parse0 ''https://instagram.com.attacker.net/p'' =
      Some \<lparr>url_protocol = ''https:'', url_hostname = ''instagram.com.attacker.net''\<rparr>"
    by (simp add: parse0_def)
  have entry: "(instagram, [''instagram.com'', ''instagr.am'']) \<in> set PLATFORM_PATTERNS"
    by (simp add: PLATFORM_PATTERNS_def)
  have pat: "''instagram.com'' \<in> set [''instagram.com'', ''instagr.am'']"
    by simp
  have sub: "toLowerCase (url_hostname \<lparr>url_protocol = ''https:'', url_hostname = ''instagram.com.attacker.net''\<rparr>)
      = [] @ ''instagram.com'' @ ''.attacker.net''"
    by (simp add: toLowerCase_def toLowerCase_char_def)
  have first: "takeWhile (\<lambda>e. fst e \<noteq> instagram) PLATFORM_PATTERNS = []"
    by (simp add: PLATFORM_PATTERNS_def)
  show ?thesis
    using conjunct2 [OF conjunct2 [OF detectPlatform_first_match [OF valid parsed entry pat sub]]] first
    by simp
qed

text \<open>
  Claim C9: the patterns are tested as unanchored substrings of the lowercased
  hostname, so every valid http/https URL whose hostname contains a platform's domain
  as a substring is classified as that platform rather than as unsupported. The code
  departs from this on reddit's own domain. The table lists \<open>reddit.com\<close> under reddit,
  and the hostname \<open>www.reddit.com\<close> contains it; but it also contains twitter's
  pattern \<open>t.co\<close> (inside \<open>reddit.com\<close>), and twitter comes first in the table: the URL
  \<open>https://www.reddit.com/r/x\<close> is classified as twitter, not as reddit.
\<close>

theorem detectPlatform_reddit_is_twitter:
  "isValidURL parse0 ''https://www.reddit.com/r/x''
   \<and> parse0 ''https://www.reddit.com/r/x'' = Some \<lparr>url_protocol = ''https:'', url_hostname = ''www.reddit.com''\<rparr>
   \<and> toLowerCase ''www.reddit.com'' = ''www.'' @ ''reddit.com'' @ []
   \<and> (reddit, [''reddit.com'', ''redd.it'']) \<in> set PLATFORM_PATTERNS
   \<and> detectPlatform parse0 ''https://www.reddit.com/r/x'' = Some twitter"
  by (simp add: isValidURL_def parse0_def detectPlatform_def PLATFORM_PATTERNS_def
      toLowerCase_def toLowerCase_char_def)

section \<open>Cache lemmas\<close>

lemma map_of_map_set: "map_of (map_set k v m) = (map_of m)(k \<mapsto> v)"
  by (induction m) auto

lemma keys_map_set_absent: "k \<notin> fst ` set m \<Longrightarrow> map_set k v m = m @ [(k, v)]"
  by (induction m) auto

lemma keys_map_set_present: "k \<in> fst ` set m \<Longrightarrow> map fst (map_set k v m) = map fst m"
  by (induction m) auto

lemma map_of_map_delete: "map_of (map_delete k m) = (map_of m)(k := None)"
  by (induction m) (auto simp: map_delete_def)

lemma map_delete_hd: "distinct (map fst ((k, v) # m)) \<Longrightarrow> map_delete k ((k, v) # m) = m"
  by (auto simp: map_delete_def intro: filter_True)

lemma generateCacheKey_inj: "generateCacheKey a = generateCacheKey b \<longleftrightarrow> a = b"
  by (simp add: generateCacheKey_def)

lemma generateCacheKey_nonempty: "generateCacheKey u \<noteq> []"
  by (simp add: generateCacheKey_def)

lemma map_of_setCache_same:
  "cache_enabled cfg \<Longrightarrow>
   map_of (setCache cfg t0 u d cache) (generateCacheKey u) =
     Some \<lparr>entry_data = d, entry_timestamp = t0, entry_ttl = cache_ttl cfg\<rparr>"
  by (simp add: setCache_def Let_def map_of_map_set)

lemma fst_mk_entry: "fst (mk_entry cfg op) = generateCacheKey (fst (snd op))"
  by (simp add: mk_entry_def)

lemma setCache_all_append:
  "setCache_all cfg (xs @ ys) cache = setCache_all cfg ys (setCache_all cfg xs cache)"
  by (induction cfg xs cache rule: setCache_all.induct) auto

lemma setCache_below_capacity:
  assumes "cache_enabled cfg" "length cache < cache_maxSize cfg"
    "generateCacheKey u \<notin> fst ` set cache"
  shows "setCache cfg now u d cache = cache @ [mk_entry cfg (now, u, d)]"
  using assms by (simp add: setCache_def Let_def keys_map_set_absent mk_entry_def)

lemma setCache_all_below_capacity:
  "cache_enabled cfg \<Longrightarrow> length cache + length ops \<le> cache_maxSize cfg \<Longrightarrow>
    distinct (map fst cache @ map (\<lambda>op. generateCacheKey (fst (snd op))) ops) \<Longrightarrow>
    setCache_all cfg ops cache = cache @ map (mk_entry cfg) ops"
proof (induction cfg ops cache rule: setCache_all.induct)
  case (1 cfg cache)
  then show ?case by simp
next
  case (2 cfg now url d rest cache)
  have new: "generateCacheKey url \<notin> fst ` set cache"
    using "2.prems"(3) by auto
  have lt: "length cache < cache_maxSize cfg"
    using "2.prems"(2) by simp
  have step: "setCache cfg now url d cache = cache @ [mk_entry cfg (now, url, d)]"
    using setCache_below_capacity [OF "2.prems"(1) lt new] .
  have "setCache_all cfg rest (cache @ [mk_entry cfg (now, url, d)]) =
          (cache @ [mk_entry cfg (now, url, d)]) @ map (mk_entry cfg) rest"
    using "2.IH" [unfolded step] "2.prems" by (simp add: fst_mk_entry)
  then show ?case by (simp add: step)
qed

lemma setCache_at_capacity_new:
  assumes en: "cache_enabled cfg" and cap: "length cache \<ge> cache_maxSize cfg"
    and c: "cache = (k0, e0) # rest" and k0: "k0 \<noteq> []"
    and d: "distinct (map fst cache)"
    and new: "generateCacheKey u \<notin> fst ` set rest"
  shows "setCache cfg now u d' cache = rest @ [mk_entry cfg (now, u, d')]"
proof -
  have "evictOldest cache = rest"
    using c k0 d map_delete_hd [of k0 e0 rest] by (simp add: evictOldest_def)
  then show ?thesis
    using en cap new by (simp add: setCache_def Let_def keys_map_set_absent mk_entry_def)
qed

lemma distinct_urls_keys:
  "distinct (map (\<lambda>op. generateCacheKey (fst (snd op))) ops) = distinct (map (\<lambda>op. fst (snd op)) ops)"
proof -
  have "map (\<lambda>op. generateCacheKey (fst (snd op))) ops = map generateCacheKey (map (\<lambda>op. fst (snd op)) ops)"
    by simp
  moreover have "inj generateCacheKey"
    by (simp add: inj_def generateCacheKey_inj)
  ultimately show ?thesis
    by (simp only: distinct_map) (auto intro: inj_on_subset)
qed

lemma setCache_all_overflow:
  assumes en: "cache_enabled cfg" and pos: "1 \<le> cache_maxSize cfg"
    and dist: "distinct (map (\<lambda>op. fst (snd op)) ops)"
    and len: "length ops = cache_maxSize cfg + 1"
  shows "setCache_all cfg ops [] = map (mk_entry cfg) (tl ops)"
proof -
  from len obtain xs x where ops: "ops = xs @ [x]"
    by (metis Suc_eq_plus1 length_Suc_conv_rev)
  with len have lxs: "length xs = cache_maxSize cfg" by simp
  with pos obtain y ys where xs: "xs = y # ys" by (cases xs) auto
  have dk: "distinct (map (\<lambda>op. generateCacheKey (fst (snd op))) ops)"
    using dist by (simp add: distinct_urls_keys)
  have first: "setCache_all cfg xs [] = map (mk_entry cfg) xs"
    using setCache_all_below_capacity [OF en, of "[]" xs] lxs dk ops by simp
  obtain now u d where x: "x = (now, u, d)" by (cases x) auto
  have cache: "map (mk_entry cfg) xs = (fst (mk_entry cfg y), snd (mk_entry cfg y)) # map (mk_entry cfg) ys"
    using xs by simp
  have dxs: "distinct (map fst (map (mk_entry cfg) xs))"
    using dk ops by (simp add: comp_def fst_mk_entry)
  have new: "generateCacheKey u \<notin> fst ` set (map (mk_entry cfg) ys)"
    using dk ops xs x by (auto simp: fst_mk_entry image_iff)
  have "setCache cfg now u d (map (mk_entry cfg) xs) = map (mk_entry cfg) ys @ [mk_entry cfg (now, u, d)]"
    using setCache_at_capacity_new [OF en _ cache _ dxs new] lxs
    by (simp add: fst_mk_entry generateCacheKey_nonempty)
  then have "setCache_all cfg [x] (setCache_all cfg xs []) = map (mk_entry cfg) ys @ [mk_entry cfg x]"
    using first x by simp
  then have "setCache_all cfg (xs @ [x]) [] = map (mk_entry cfg) ys @ [mk_entry cfg x]"
    by (simp only: setCache_all_append)
  moreover have "tl ops = ys @ [x]"
    using ops xs by simp
  ultimately show ?thesis
    using ops by simp
qed

lemma keys_map_delete: "map fst (map_delete k m) = filter (\<lambda>x. x \<noteq> k) (map fst m)"
  by (induction m) (auto simp: map_delete_def)

lemma keys_map_set: "set (map fst (map_set k v m)) = insert k (set (map fst m))"
  by (induction m) auto

lemma distinct_map_set: "distinct (map fst m) \<Longrightarrow> distinct (map fst (map_set k v m))"
proof (induction m)
  case Nil
  then show ?case by simp
next
  case (Cons p ps)
  then show ?case
    using keys_map_set [of k v ps] by (auto simp del: set_map)
qed

lemma cache_wf_map_delete: "cache_wf c \<Longrightarrow> cache_wf (map_delete k c)"
  by (auto simp: cache_wf_def keys_map_delete simp del: set_map)

lemma cache_wf_evictOldest: "cache_wf c \<Longrightarrow> cache_wf (evictOldest c)"
  by (auto simp: evictOldest_def cache_wf_map_delete split: list.splits)

lemma cache_wf_setCache: "cache_wf c \<Longrightarrow> cache_wf (setCache cfg now u d c)"
proof -
  assume wf: "cache_wf c"
  have key: "take 6 (generateCacheKey u) = ''fetch:''"
    by (simp add: generateCacheKey_def)
  have "cache_wf (map_set (generateCacheKey u) e c')" if "cache_wf c'" for c' e
    using that key distinct_map_set [of c' "generateCacheKey u" e] keys_map_set [of "generateCacheKey u" e c']
    by (auto simp: cache_wf_def simp del: set_map)
  then show ?thesis
    using wf by (simp add: setCache_def Let_def cache_wf_evictOldest)
qed

lemma cache_wf_getFromCache: "cache_wf c \<Longrightarrow> cache_wf (snd (getFromCache cfg now u c))"
  by (auto simp: getFromCache_def Let_def cache_wf_map_delete split: option.splits)

lemma cache_wf_empty: "cache_wf []"
  by (simp add: cache_wf_def)

subsection \<open>Expiry (claim C3)\<close>

text \<open>
  Claim C3, as the code has it: with the cache enabled, a lookup of \<open>u\<close> after a put of
  \<open>u\<close> at clock reading \<open>t0\<close> with TTL \<open>T = cache_ttl cfg\<close> seconds returns the stored
  response when the elapsed time \<open>now - t0\<close> is at most \<open>T * 1000\<close> ms, and otherwise
  reports a miss and deletes the entry. The entry is valid iff
  \<open>now - timestamp \<le> ttl * 1000\<close>: the expiry test in \<open>getFromCache\<close> is strict.
\<close>

theorem cache_roundtrip_ttl:
  assumes "cache_enabled cfg"
  shows "getFromCache cfg now u (setCache cfg t0 u d cache) =
           (if now - t0 \<le> cache_ttl cfg * 1000
            then (Some d, setCache cfg t0 u d cache)
            else (None, map_delete (generateCacheKey u) (setCache cfg t0 u d cache)))
         \<and> (now - t0 > cache_ttl cfg * 1000 \<longrightarrow>
              map_of (snd (getFromCache cfg now u (setCache cfg t0 u d cache))) (generateCacheKey u) = None)"
  using assms map_of_setCache_same [OF assms, of t0 u d cache]
  by (auto simp: getFromCache_def Let_def map_of_map_delete)

theorem cache_roundtrip_ttl_witness:
  "getFromCache cfg0 60000 ''https://x.com/a'' (setCache cfg0 0 ''https://x.com/a'' resp0 []) =
     (Some resp0, setCache cfg0 0 ''https://x.com/a'' resp0 [])
   \<and> getFromCache cfg0 60001 ''https://x.com/a'' (setCache cfg0 0 ''https://x.com/a'' resp0 []) = (None, [])"
  using cache_roundtrip_ttl [where cfg = cfg0 and now = 60000 and ?t0.0 = 0 and u = "''https://x.com/a''" and d = resp0 and cache = "[]"]
        cache_roundtrip_ttl [where cfg = cfg0 and now = 60001 and ?t0.0 = 0 and u = "''https://x.com/a''" and d = resp0 and cache = "[]"]
  by (simp add: cfg0_def setCache_def map_delete_def generateCacheKey_def)

text \<open>
  The claim as written puts the boundary on the other side (a miss at every elapsed time
  \<open>\<ge> T * 1000\<close>). At exactly \<open>T * 1000\<close> ms (here 60 s after the put) the lookup still
  hits.
\<close>

theorem cache_expiry_boundary_counterexample:
  "fst (getFromCache cfg0 60000 ''https://x.com/a'' (setCache cfg0 0 ''https://x.com/a'' resp0 [])) = Some resp0"
  by (simp add: cfg0_def setCache_def getFromCache_def generateCacheKey_def)

subsection \<open>Bounded FIFO eviction (claim C5)\<close>

text \<open>
  For \<open>maxSize \<ge> 1\<close> the bound holds: with the cache enabled, putting \<open>maxSize + 1\<close>
  distinct URLs into the empty cache leaves exactly \<open>maxSize\<close> entries; the
  first-inserted key is absent and every later key is present. (\<open>setCache\<close> never reads
  the clock against a TTL, so no expiry interferes.)
\<close>

lemma cache_bound_positive:
  assumes "cache_enabled cfg" and "1 \<le> cache_maxSize cfg"
    and "distinct (map (\<lambda>op. fst (snd op)) ops)"
    and "length ops = cache_maxSize cfg + 1"
  shows "length (setCache_all cfg ops []) = cache_maxSize cfg
       \<and> map_of (setCache_all cfg ops []) (generateCacheKey (fst (snd (hd ops)))) = None
       \<and> (\<forall>op \<in> set (tl ops). map_of (setCache_all cfg ops []) (generateCacheKey (fst (snd op))) \<noteq> None)"
proof -
  have res: "setCache_all cfg ops [] = map (mk_entry cfg) (tl ops)"
    using setCache_all_overflow [OF assms] .
  from assms(4) obtain y ys where ops: "ops = y # ys" by (cases ops) auto
  have keys: "fst ` set (map (mk_entry cfg) ys) = generateCacheKey ` (\<lambda>op. fst (snd op)) ` set ys"
    by (simp add: image_image fst_mk_entry)
  have "fst (snd y) \<notin> (\<lambda>op. fst (snd op)) ` set ys"
    using assms(3) ops by auto
  then have absent: "generateCacheKey (fst (snd y)) \<notin> fst ` set (map (mk_entry cfg) ys)"
    unfolding keys using inj_image_mem_iff [of generateCacheKey]
    by (simp add: inj_def generateCacheKey_inj)
  have present: "\<forall>op \<in> set ys. generateCacheKey (fst (snd op)) \<in> fst ` set (map (mk_entry cfg) ys)"
    unfolding keys by auto
  show ?thesis
    using res ops assms(4) absent present
    by (auto simp: map_of_eq_None_iff simp del: set_map)
qed

lemma cache_bound_two:
  "length (setCache_all cfg2 ops3 []) = 2
   \<and> map_of (setCache_all cfg2 ops3 []) (generateCacheKey ''https://x.com/a'') = None
   \<and> map_of (setCache_all cfg2 ops3 []) (generateCacheKey ''https://x.com/b'') \<noteq> None
   \<and> map_of (setCache_all cfg2 ops3 []) (generateCacheKey ''https://x.com/c'') \<noteq> None"
  using cache_bound_positive [of cfg2 ops3]
  by (simp add: cfg2_def ops3_def)

text \<open>
  Claim C5: for every \<open>maxSize\<close>, inserting \<open>maxSize + 1\<close> distinct keys into the enabled
  cache leaves exactly \<open>maxSize\<close> entries, the first-inserted key absent and all later
  keys present. The code departs from this for \<open>maxSize = 0\<close>, the documented maximum
  number of cache entries being zero: the size test holds on the empty map, there is no
  oldest key to delete, and the put goes ahead, so one insert leaves one entry, the
  first-inserted key present.
\<close>

theorem cache_bound_zero_overflow:
  "cache_enabled cfg_zero \<and> cache_maxSize cfg_zero = 0
   \<and> length (setCache_all cfg_zero [(0, ''https://x.com/a'', resp0)] []) = 1
   \<and> map_of (setCache_all cfg_zero [(0, ''https://x.com/a'', resp0)] []) (generateCacheKey ''https://x.com/a'') \<noteq> None"
  by (simp add: cfg_zero_def setCache_def evictOldest_def generateCacheKey_def)

subsection \<open>Overwriting at capacity (claim C10)\<close>

text \<open>
  Claim C10: when the cache holds exactly \<open>maxSize\<close> entries and a put is issued for a
  URL whose key is already present, the oldest entry \<open>k0\<close> is evicted before the
  overwrite. Unless the overwritten key is itself the oldest, the keys afterwards are
  the old keys without \<open>k0\<close>: one entry fewer, a strict subset. When the overwritten
  key is the oldest it is deleted and re-inserted at the end, the key set unchanged.
\<close>

theorem overwrite_at_capacity_evicts:
  assumes en: "cache_enabled cfg" and wf: "cache_wf cache"
    and full: "length cache = cache_maxSize cfg"
    and c: "cache = (k0, e0) # rest"
    and present: "generateCacheKey u \<in> fst ` set cache"
  shows "(generateCacheKey u \<noteq> k0 \<longrightarrow>
            map fst (setCache cfg now u d cache) = map fst rest
          \<and> length (setCache cfg now u d cache) = cache_maxSize cfg - 1
          \<and> fst ` set (setCache cfg now u d cache) = fst ` set cache - {k0}
          \<and> fst ` set (setCache cfg now u d cache) \<subset> fst ` set cache)
       \<and> (generateCacheKey u = k0 \<longrightarrow>
            map fst (setCache cfg now u d cache) = map fst rest @ [k0])"
proof -
  have k0: "k0 \<noteq> []"
    using wf c by (auto simp: cache_wf_def)
  have dist: "distinct (map fst cache)"
    using wf by (simp add: cache_wf_def)
  have ev: "evictOldest cache = rest"
    using c k0 dist map_delete_hd [of k0 e0 rest] by (simp add: evictOldest_def)
  have sc: "setCache cfg now u d cache =
      map_set (generateCacheKey u) \<lparr>entry_data = d, entry_timestamp = now, entry_ttl = cache_ttl cfg\<rparr> rest"
    using en full ev by (simp add: setCache_def Let_def)
  have k0rest: "k0 \<notin> fst ` set rest"
    using dist c by auto
  show ?thesis
  proof (cases "generateCacheKey u = k0")
    case True
    then show ?thesis
      using sc k0rest by (simp add: keys_map_set_absent)
  next
    case False
    then have inrest: "generateCacheKey u \<in> fst ` set rest"
      using present c by auto
    have keys: "map fst (setCache cfg now u d cache) = map fst rest"
      using sc inrest by (simp add: keys_map_set_present)
    have len: "length (setCache cfg now u d cache) = cache_maxSize cfg - 1"
      using keys full c by (metis length_map list.size(4) add_diff_cancel_right' length_Cons One_nat_def diff_Suc_1)
    have set_eq: "fst ` set (setCache cfg now u d cache) = fst ` set cache - {k0}"
    proof -
      have "fst ` set (setCache cfg now u d cache) = set (map fst (setCache cfg now u d cache))"
        by simp
      also have "\<dots> = fst ` set rest"
        by (simp only: keys) simp
      also have "\<dots> = fst ` set cache - {k0}"
        using c k0rest by auto
      finally show ?thesis .
    qed
    have "fst ` set cache - {k0} \<subset> fst ` set cache"
      using c by auto
    then show ?thesis
      using False keys len set_eq by simp
  qed
qed

lemma cache2_eval:
  "cache2 = [(''fetch:https://x.com/a'', \<lparr>entry_data = resp0, entry_timestamp = 0, entry_ttl = 60\<rparr>),
             (''fetch:https://x.com/b'', \<lparr>entry_data = resp0, entry_timestamp = 1, entry_ttl = 60\<rparr>)]"
  by (simp add: cache2_def cfg2_def setCache_def generateCacheKey_def)

theorem overwrite_at_capacity_evicts_witness:
  "map fst cache2 = [''fetch:https://x.com/a'', ''fetch:https://x.com/b'']
   \<and> map fst (setCache cfg2 5 ''https://x.com/b'' resp0 cache2) = [''fetch:https://x.com/b'']
   \<and> map fst (setCache cfg2 5 ''https://x.com/a'' resp0 cache2) = [''fetch:https://x.com/b'', ''fetch:https://x.com/a'']"
proof -
  have en: "cache_enabled cfg2" by (simp add: cfg2_def)
  have wf: "cache_wf cache2" by (simp add: cache2_eval cache_wf_def)
  have full: "length cache2 = cache_maxSize cfg2" by (simp add: cache2_eval cfg2_def)
  have ina: "generateCacheKey ''https://x.com/a'' \<in> fst ` set cache2"
    by (simp add: cache2_eval generateCacheKey_def)
  have inb: "generateCacheKey ''https://x.com/b'' \<in> fst ` set cache2"
    by (simp add: cache2_eval generateCacheKey_def)
  have ka: "generateCacheKey ''https://x.com/a'' = ''fetch:https://x.com/a''"
    by (simp add: generateCacheKey_def)
  have kb: "generateCacheKey ''https://x.com/b'' \<noteq> ''fetch:https://x.com/a''"
    by (simp add: generateCacheKey_def)
  show ?thesis
    using overwrite_at_capacity_evicts [OF en wf full cache2_eval inb, of 5 resp0]
          overwrite_at_capacity_evicts [OF en wf full cache2_eval ina, of 5 resp0]
          ka kb
    by (simp add: cache2_eval)
qed

section \<open>Client lemmas\<close>

lemma fetch_transport:
  assumes v: "validateURL (parseURL W) url = Inr ()"
    and p: "detectPlatform (parseURL W) url = Some platform"
    and c: "\<not> cache_enabled (cacheConfig cfg)"
    and g: "0 < maxConcurrent (rateLimitConfig cfg)"
  shows "fetch W cfg url st =
     (let st2 = st\<lparr>st_calls := st_calls st + 1, st_now := st_now st + fst (network W (st_calls st))\<rparr> in
      case request (cfg_timeout cfg) (parseInt W) (snd (network W (st_calls st))) of
        Inl e \<Rightarrow> (Inl (Fetchtium e), st2)
      | Inr None \<Rightarrow> (Inl (TypeError ''Cannot read properties of null (reading success)''), st2)
      | Inr (Some response) \<Rightarrow>
          if \<not> resp_success response then (Inl (Fetchtium (responseError url platform response)), st2)
          else (Inr response, st2))"
  using v p c g
  by (simp add: fetch_def getFromCache_def setCache_def Let_def split: sum.splits option.splits)

lemma st_calls_sleep: "st_calls (sleep ms st) = st_calls st"
  by (simp add: sleep_def)

lemma retry_loop_rate_limited:
  assumes v: "validateURL (parseURL W) url = Inr ()"
    and p: "detectPlatform (parseURL W) url = Some platform"
    and c: "\<not> cache_enabled (cacheConfig cfg)"
    and g: "0 < maxConcurrent (rateLimitConfig cfg)"
    and m: "eff_maxRetries config = Some m"
    and rs: "eff_retryableErrors config = Some retryable"
    and r: "RATE_LIMITED \<in> set retryable"
  shows "int attempt \<le> m \<Longrightarrow>
    (\<forall>i<n. \<exists>e. request (cfg_timeout cfg) (parseInt W) (snd (network W (st_calls st + i))) = Inl e
                \<and> err_code e = RATE_LIMITED) \<Longrightarrow>
    request (cfg_timeout cfg) (parseInt W) (snd (network W (st_calls st + n))) = Inr (Some res) \<Longrightarrow>
    resp_success res \<Longrightarrow>
    (int (attempt + n) \<le> m \<longrightarrow>
       fst (retry_loop W cfg config url attempt lastError st) = Inr res
     \<and> st_calls (snd (retry_loop W cfg config url attempt lastError st)) = st_calls st + n + 1)
  \<and> (m < int (attempt + n) \<longrightarrow>
       (case request (cfg_timeout cfg) (parseInt W)
               (snd (network W (st_calls st + (nat m - attempt)))) of
          Inl e \<Rightarrow> fst (retry_loop W cfg config url attempt lastError st) = Inl (Fetchtium e)
        | Inr _ \<Rightarrow> False)
     \<and> st_calls (snd (retry_loop W cfg config url attempt lastError st))
         = st_calls st + (nat m - attempt) + 1)"
proof (induction n arbitrary: attempt lastError st)
  case 0
  then have req: "request (cfg_timeout cfg) (parseInt W) (snd (network W (st_calls st))) = Inr (Some res)"
    by simp
  have "retry_loop W cfg config url attempt lastError st =
      (Inr res, st\<lparr>st_calls := st_calls st + 1, st_now := st_now st + fst (network W (st_calls st))\<rparr>)"
    using "0.prems"(1,4) req m
    by (subst retry_loop.simps) (simp add: fetch_transport [OF v p c g] Let_def attempt_le_def)
  then show ?case
    using "0.prems"(1) by simp
next
  case (Suc n)
  from Suc.prems(2) obtain e where
    e: "request (cfg_timeout cfg) (parseInt W) (snd (network W (st_calls st))) = Inl e"
       "err_code e = RATE_LIMITED"
    by force
  let ?st1 = "st\<lparr>st_calls := st_calls st + 1, st_now := st_now st + fst (network W (st_calls st))\<rparr>"
  have f: "fetch W cfg url st = (Inl (Fetchtium e), ?st1)"
    using e by (simp add: fetch_transport [OF v p c g] Let_def)
  show ?case
  proof (cases "int attempt \<ge> m")
    case True
    then have eq: "int attempt = m" using Suc.prems(1) by simp
    have "retry_loop W cfg config url attempt lastError st = (Inl (Fetchtium e), ?st1)"
      using eq f m rs
      by (subst retry_loop.simps)
         (simp add: attempt_le_def attempt_ge_def asFetchtiumError_def)
    moreover have "nat m - attempt = 0" using eq by simp
    ultimately show ?thesis using eq e by simp
  next
    case False
    let ?delay = "eff_retryDelay config * eff_backoffMultiplier config ^ attempt"
    define st2 where "st2 = (case ctx_retryAfter (err_context e) of
                            Some retryAfter \<Rightarrow>
                              if err_statusCode e = Some 429 \<and> retryAfter \<noteq> 0
                              then sleep (max ?delay (retryAfter * 1000)) ?st1
                              else sleep ?delay ?st1
                          | None \<Rightarrow> sleep ?delay ?st1)"
    define e1 where "e1 = e\<lparr>err_context := (err_context e)
                              \<lparr>ctx_retryAttempt := Some (attempt + 1),
                               ctx_maxRetries := Some m\<rparr>\<rparr>"
    have unfold: "retry_loop W cfg config url attempt lastError st =
        retry_loop W cfg config url (attempt + 1) (Some e1) st2"
      using False Suc.prems(1) f e(2) r m rs
      by (subst retry_loop.simps)
         (simp add: Let_def st2_def e1_def attempt_le_def attempt_ge_def asFetchtiumError_def
            split: option.split)
    have calls2: "st_calls st2 = st_calls st + 1"
      by (simp add: st2_def st_calls_sleep split: option.splits)
    have le: "int (attempt + 1) \<le> m" using False by simp
    have script: "\<forall>i<n. \<exists>e. request (cfg_timeout cfg) (parseInt W) (snd (network W (st_calls st2 + i))) = Inl e
                \<and> err_code e = RATE_LIMITED"
    proof (intro allI impI)
      fix i assume "i < n"
      then have "Suc i < Suc n" by simp
      from Suc.prems(2) [rule_format, OF this]
      show "\<exists>e. request (cfg_timeout cfg) (parseInt W) (snd (network W (st_calls st2 + i))) = Inl e
                \<and> err_code e = RATE_LIMITED"
        by (simp add: calls2)
    qed
    have succ: "request (cfg_timeout cfg) (parseInt W) (snd (network W (st_calls st2 + n))) = Inr (Some res)"
      using Suc.prems(3) by (simp add: calls2)
    have idx: "st_calls st2 + (nat m - (attempt + 1)) = st_calls st + (nat m - attempt)"
      using le calls2 by simp
    have arith: "int (attempt + 1 + n) = int (attempt + Suc n)" by simp
    show ?thesis
      using Suc.IH [OF le script succ Suc.prems(4), of "Some e1"]
      unfolding unfold idx arith
      by (simp add: calls2)
  qed
qed

lemma world429_valid: "validateURL (parseURL world429) ''https://www.instagram.com/p/ABC123/'' = Inr ()"
  by (simp add: validateURL_def isValidURL_def world429_def parse0_def)

lemma world429_platform: "detectPlatform (parseURL world429) ''https://www.instagram.com/p/ABC123/'' = Some instagram"
  by (simp add: detectPlatform_def isValidURL_def world429_def parse0_def PLATFORM_PATTERNS_def
      toLowerCase_def toLowerCase_char_def)

lemma world429_first:
  "request (cfg_timeout defaultConfig) (parseInt world429) (snd (network world429 0)) = Inl (rateLimited (Some 10))"
  by (simp add: request_def world429_def response429_def http_ok_def handleHTTPError_def)

lemma world429_second:
  "request (cfg_timeout defaultConfig) (parseInt world429) (snd (network world429 (Suc 0))) = Inr (Some resp0)"
  by (simp add: request_def world429_def response200_def http_ok_def)

lemma rateLimited_code: "err_code (rateLimited h) = RATE_LIMITED"
  by (simp add: rateLimited_def newFetchtiumError_def Let_def)

subsection \<open>Invalid URLs never reach the transport (claim C7)\<close>

text \<open>
  Claim C7: for every string that is not a valid absolute http/https URL (the parser
  rejects it, or its scheme is neither \<open>http:\<close> nor \<open>https:\<close>), each of \<open>fetch\<close>, \<open>merge\<close>
  and \<open>convert\<close> throws the \<open>INVALID_URL\<close> error and leaves the state as it was: the
  number of transport invocations has not changed.
\<close>

theorem invalid_url_no_transport:
  assumes "\<not> isValidURL (parseURL W) url"
    and "mo_url mergeOptions = url" and "co_url convertOptions = url"
  shows "fetch W cfg url st = (Inl (Fetchtium (invalidURL url)), st)
       \<and> merge W cfg mergeOptions st = (Inl (invalidURL url), st)
       \<and> convert W cfg convertOptions st = (Inl (invalidURL url), st)
       \<and> err_code (invalidURL url) = INVALID_URL
       \<and> st_calls (snd (fetch W cfg url st)) = st_calls st
       \<and> st_calls (snd (merge W cfg mergeOptions st)) = st_calls st
       \<and> st_calls (snd (convert W cfg convertOptions st)) = st_calls st"
  using assms
  by (simp add: fetch_def merge_def convert_def validateURL_def invalidURL_def newFetchtiumError_def)

theorem invalid_url_no_transport_witness:
  "\<not> isValidURL parse0 ''www.instagram.com/p/ABC123''
   \<and> \<not> isValidURL parse0 ''ftp://www.instagram.com/p''
   \<and> fetch world429 defaultConfig ''www.instagram.com/p/ABC123'' st0
       = (Inl (Fetchtium (invalidURL ''www.instagram.com/p/ABC123'')), st0)
   \<and> merge world429 defaultConfig \<lparr>mo_url = ''ftp://www.instagram.com/p'', mo_quality = Some ''1080p'', mo_filename = None\<rparr> st0
       = (Inl (invalidURL ''ftp://www.instagram.com/p''), st0)
   \<and> convert world429 defaultConfig \<lparr>co_url = ''www.instagram.com/p/ABC123'', co_format = Some ''mp3'', co_filename = None\<rparr> st0
       = (Inl (invalidURL ''www.instagram.com/p/ABC123''), st0)"
proof -
  have a: "\<not> isValidURL (parseURL world429) ''www.instagram.com/p/ABC123''"
    by (simp add: isValidURL_def world429_def parse0_def)
  have b: "\<not> isValidURL (parseURL world429) ''ftp://www.instagram.com/p''"
    by (simp add: isValidURL_def world429_def parse0_def)
  have p: "parseURL world429 = parse0"
    by (simp add: world429_def)
  show ?thesis
    using invalid_url_no_transport [OF a, of "\<lparr>mo_url = ''www.instagram.com/p/ABC123'', mo_quality = Some ''1080p'', mo_filename = None\<rparr>"
              "\<lparr>co_url = ''www.instagram.com/p/ABC123'', co_format = Some ''mp3'', co_filename = None\<rparr>" defaultConfig st0]
          invalid_url_no_transport [OF b, of "\<lparr>mo_url = ''ftp://www.instagram.com/p'', mo_quality = Some ''1080p'', mo_filename = None\<rparr>"
              "\<lparr>co_url = ''ftp://www.instagram.com/p'', co_format = Some ''mp3'', co_filename = None\<rparr>" defaultConfig st0]
          a b
    by (simp add: p)
qed

subsection \<open>Retry count (claim C6)\<close>

text \<open>
  Claim C6, with the two conditions the code adds: let the URL pass validation and
  classification, the cache be disabled and the gate admit the caller; let the
  effective \<open>maxRetries\<close> be a number \<open>m \<ge> 0\<close> and let \<open>RATE_LIMITED\<close> be among the
  effective \<open>retryableErrors\<close>. If the transport fails with a \<open>RATE_LIMITED\<close> error on
  the next \<open>n\<close> invocations and succeeds on the one after, then \<open>fetchWithRetry\<close> with
  \<open>maxRetries \<ge> n\<close> returns that success after exactly \<open>n + 1\<close> invocations, and with
  \<open>maxRetries < n\<close> it throws the error of invocation number \<open>maxRetries + 1\<close>, its last
  attempt, after exactly \<open>maxRetries + 1\<close> invocations.
\<close>

theorem fetchWithRetry_rate_limited:
  assumes v: "validateURL (parseURL W) url = Inr ()"
    and p: "detectPlatform (parseURL W) url = Some platform"
    and c: "\<not> cache_enabled (cacheConfig cfg)"
    and g: "0 < maxConcurrent (rateLimitConfig cfg)"
    and m: "eff_maxRetries (spreadRetryConfig (retryConfig cfg) override) = Some m"
    and m0: "0 \<le> m"
    and rs: "eff_retryableErrors (spreadRetryConfig (retryConfig cfg) override) = Some retryable"
    and r: "RATE_LIMITED \<in> set retryable"
    and fails: "\<forall>i<n. \<exists>e. request (cfg_timeout cfg) (parseInt W) (snd (network W (st_calls st + i))) = Inl e
                \<and> err_code e = RATE_LIMITED"
    and succeeds: "request (cfg_timeout cfg) (parseInt W) (snd (network W (st_calls st + n))) = Inr (Some res)"
    and ok: "resp_success res"
  shows "(int n \<le> m \<longrightarrow>
            fst (fetchWithRetry W cfg url override st) = Inr res
          \<and> st_calls (snd (fetchWithRetry W cfg url override st)) = st_calls st + n + 1)
       \<and> (m < int n \<longrightarrow>
            (\<exists>e. request (cfg_timeout cfg) (parseInt W) (snd (network W (st_calls st + nat m))) = Inl e
                \<and> err_code e = RATE_LIMITED
                \<and> fst (fetchWithRetry W cfg url override st) = Inl (Fetchtium e))
          \<and> st_calls (snd (fetchWithRetry W cfg url override st)) = st_calls st + nat m + 1)"
proof -
  let ?config = "spreadRetryConfig (retryConfig cfg) override"
  have fw: "fetchWithRetry W cfg url override st = retry_loop W cfg ?config url 0 None st"
    using v by (simp add: fetchWithRetry_def)
  have a0: "int 0 \<le> m" using m0 by simp
  note loop = retry_loop_rate_limited [OF v p c g m rs r a0 fails succeeds ok, of None]
  show ?thesis
  proof (intro conjI impI)
    assume le: "int n \<le> m"
    then show "fst (fetchWithRetry W cfg url override st) = Inr res"
      using loop by (simp add: fw)
    show "st_calls (snd (fetchWithRetry W cfg url override st)) = st_calls st + n + 1"
      using loop le by (simp add: fw)
  next
    assume lt: "m < int n"
    then have "nat m < n" using m0 by simp
    then obtain e where e: "request (cfg_timeout cfg) (parseInt W)
                    (snd (network W (st_calls st + nat m))) = Inl e"
        "err_code e = RATE_LIMITED"
      using fails by blast
    moreover have "fst (fetchWithRetry W cfg url override st) = Inl (Fetchtium e)"
      using loop lt e by (simp add: fw)
    ultimately show "\<exists>e. request (cfg_timeout cfg) (parseInt W)
                    (snd (network W (st_calls st + nat m))) = Inl e
                \<and> err_code e = RATE_LIMITED
                \<and> fst (fetchWithRetry W cfg url override st) = Inl (Fetchtium e)"
      by blast
    show "st_calls (snd (fetchWithRetry W cfg url override st)) = st_calls st + nat m + 1"
      using loop lt by (simp add: fw)
  qed
qed

theorem fetchWithRetry_rate_limited_witness:
  "fst (fetchWithRetry world429 defaultConfig ''https://www.instagram.com/p/ABC123/'' None st0) = Inr resp0
   \<and> st_calls (snd (fetchWithRetry world429 defaultConfig ''https://www.instagram.com/p/ABC123/'' None st0)) = 2
   \<and> fst (fetchWithRetry world429 defaultConfig ''https://www.instagram.com/p/ABC123/'' (Some noRetries) st0)
       = Inl (Fetchtium (rateLimited (Some 10)))
   \<and> st_calls (snd (fetchWithRetry world429 defaultConfig ''https://www.instagram.com/p/ABC123/'' (Some noRetries) st0)) = 1"
proof -
  have c: "\<not> cache_enabled (cacheConfig defaultConfig)"
    by (simp add: defaultConfig_def)
  have g: "0 < maxConcurrent (rateLimitConfig defaultConfig)"
    by (simp add: defaultConfig_def)
  have m1: "eff_maxRetries (spreadRetryConfig (retryConfig defaultConfig) None) = Some 3"
    by (simp add: spreadRetryConfig_def defaultConfig_def defaultRetry_def)
  have m2: "eff_maxRetries (spreadRetryConfig (retryConfig defaultConfig) (Some noRetries)) = Some 0"
    by (simp add: spreadRetryConfig_def spread_member_def noRetries_def)
  have rs1: "eff_retryableErrors (spreadRetryConfig (retryConfig defaultConfig) None)
      = Some [NETWORK_ERROR, TIMEOUT, RATE_LIMITED, INTERNAL_ERROR]"
    by (simp add: spreadRetryConfig_def defaultConfig_def defaultRetry_def)
  have rs2: "eff_retryableErrors (spreadRetryConfig (retryConfig defaultConfig) (Some noRetries))
      = Some [NETWORK_ERROR, TIMEOUT, RATE_LIMITED, INTERNAL_ERROR]"
    by (simp add: spreadRetryConfig_def spread_member_def defaultConfig_def defaultRetry_def noRetries_def)
  have r: "RATE_LIMITED \<in> set [NETWORK_ERROR, TIMEOUT, RATE_LIMITED, INTERNAL_ERROR]"
    by simp
  have fails: "\<forall>i<1. \<exists>e. request (cfg_timeout defaultConfig) (parseInt world429)
        (snd (network world429 (st_calls st0 + i))) = Inl e \<and> err_code e = RATE_LIMITED"
    using world429_first by (simp add: st0_def rateLimited_code)
  have succeeds: "request (cfg_timeout defaultConfig) (parseInt world429)
        (snd (network world429 (st_calls st0 + 1))) = Inr (Some resp0)"
    using world429_second by (simp add: st0_def)
  have ok: "resp_success resp0"
    by (simp add: resp0_def)
  have first: "request (cfg_timeout defaultConfig) (parseInt world429) (snd (network world429 (st_calls st0)))
      = Inl (rateLimited (Some 10))"
    using world429_first by (simp add: st0_def)
  have p3: "(0::int) \<le> 3" and p0: "(0::int) \<le> 0" by simp_all
  show ?thesis
    using fetchWithRetry_rate_limited [OF world429_valid world429_platform c g m1 p3 rs1 r fails succeeds ok]
          fetchWithRetry_rate_limited [OF world429_valid world429_platform c g m2 p0 rs2 r fails succeeds ok]
          first
    by (simp add: st0_def)
qed

text \<open>
  Without these conditions the claim fails. The transport below fails rate-limited once
  and then succeeds. With \<open>retryableErrors\<close> given without \<open>RATE_LIMITED\<close> and
  \<open>maxRetries = 3 \<ge> 1\<close>, the first error is rethrown at once, after one invocation.
  With \<open>maxRetries\<close> given as \<open>-1\<close> or as \<open>undefined\<close> the loop is never entered: the
  call makes no transport invocation and throws \<open>undefined\<close>, not the error of an
  attempt.
\<close>

theorem fetchWithRetry_not_retryable_counterexample:
  "request (cfg_timeout defaultConfig) (parseInt world429) (snd (network world429 0)) = Inl (rateLimited (Some 10))
   \<and> request (cfg_timeout defaultConfig) (parseInt world429) (snd (network world429 1)) = Inr (Some resp0)
   \<and> eff_maxRetries (spreadRetryConfig (retryConfig defaultConfig) (Some networkOnly)) = Some 3
   \<and> fst (fetchWithRetry world429 defaultConfig ''https://www.instagram.com/p/ABC123/'' (Some networkOnly) st0)
       = Inl (Fetchtium (rateLimited (Some 10)))
   \<and> st_calls (snd (fetchWithRetry world429 defaultConfig ''https://www.instagram.com/p/ABC123/'' (Some networkOnly) st0)) = 1
   \<and> fetchWithRetry world429 defaultConfig ''https://www.instagram.com/p/ABC123/'' (Some negativeRetries) st0
       = (Inl ThrownUndefined, st0)
   \<and> fetchWithRetry world429 defaultConfig ''https://www.instagram.com/p/ABC123/'' (Some undefinedRetries) st0
       = (Inl ThrownUndefined, st0)"
  by code_simp

subsection \<open>The Retry-After hint (claim C1)\<close>

text \<open>
  Claim C1 says that after a 429 response with \<open>Retry-After: h\<close> the orchestrator waits
  \<open>max(retryDelay * backoffMultiplier^attempt, h * 1000)\<close> ms, the hint having been put
  into the error's context by the transport. The code does not do that:
  \<open>handleHTTPError\<close> parses the header and hands it to \<open>rateLimited\<close>, which uses it for
  the message only and passes no context to the constructor, so \<open>context.retryAfter\<close>
  is never set and \<open>fetchWithRetry\<close> always takes the branch without the hint. With the
  default configuration, a first response 429 with \<open>Retry-After: 10\<close> and a second
  response 200, the only sleep is the computed 1000 ms, where the claim asks for
  \<open>max(1000, 10000) = 10000\<close> ms.
\<close>

theorem retry_after_hint_not_applied:
  "request (cfg_timeout defaultConfig) (parseInt world429) (snd (network world429 0)) = Inl (rateLimited (Some 10))
   \<and> err_statusCode (rateLimited (Some 10)) = Some 429
   \<and> ctx_retryAfter (err_context (rateLimited (Some 10))) = None
   \<and> fetchWithRetry world429 defaultConfig ''https://www.instagram.com/p/ABC123/'' None st0
       = (Inr resp0, \<lparr>st_cache = [], st_now = 1240, st_calls = 2, st_slept = [1000]\<rparr>)
   \<and> max (retryDelay defaultRetry * backoffMultiplier defaultRetry ^ 0) (10 * 1000) = 10000"
  by code_simp

section \<open>Gate lemmas\<close>

lemma gate_inv_init: "gate_inv cfg gate_init"
  by (simp add: gate_inv_def gate_weak_def gate_init_def)

lemma gate_inv_call: "gate_inv cfg g \<Longrightarrow> gate_inv cfg (executeWithRateLimit cfg g)"
  unfolding gate_inv_def gate_weak_def executeWithRateLimit_def Let_def
  by (auto simp: sorted_wrt_append less_Suc_eq)

lemma gate_weak_admit:
  assumes w: "gate_weak cfg g" and q: "requestQueue g = item # rest"
    and lt: "activeRequests g < int (maxConcurrent cfg)"
  shows "gate_weak cfg (g\<lparr>requestQueue := rest,
                activeRequests := activeRequests g + 1,
                timers := removeAll item (timers g),
                running := running g @ [item],
                admitted := admitted g @ [item]\<rparr>)"
proof -
  have notin: "item \<notin> set rest"
    using w q by (auto simp: gate_weak_def)
  have adm: "\<forall>a \<in> set (admitted g). a < item"
    using w q by (auto simp: gate_weak_def)
  have itemrun: "item \<notin> set (running g)"
    using w adm by (auto simp: gate_weak_def)
  have tim: "set (removeAll item (timers g)) = set rest"
    using w q notin by (auto simp: gate_weak_def)
  show ?thesis
    unfolding gate_weak_def
    using w q lt notin adm itemrun tim
    by (auto simp: gate_weak_def sorted_wrt_append)
qed

lemma gate_inv_processQueue_loop:
  "gate_weak cfg g \<Longrightarrow> q = requestQueue g \<Longrightarrow> gate_inv cfg (processQueue_loop cfg q g)"
proof (induction cfg q g rule: processQueue_loop.induct)
  case (1 cfg g)
  then show ?case by (simp add: gate_inv_def)
next
  case (2 cfg item rest g)
  show ?case
  proof (cases "activeRequests g < int (maxConcurrent cfg)")
    case True
    have "gate_weak cfg (g\<lparr>requestQueue := rest,
                activeRequests := activeRequests g + 1,
                timers := removeAll item (timers g),
                running := running g @ [item],
                admitted := admitted g @ [item]\<rparr>)"
      using gate_weak_admit [OF "2.prems"(1) "2.prems"(2) [symmetric] True] .
    then show ?thesis
      using "2.IH" [OF True] True by simp
  next
    case False
    then have "activeRequests g = int (maxConcurrent cfg)"
      using "2.prems"(1) by (simp add: gate_weak_def)
    then show ?thesis
      using False "2.prems"(1) by (simp add: gate_inv_def)
  qed
qed

lemma gate_inv_complete: "gate_inv cfg g \<Longrightarrow> gate_inv cfg (complete cfg c g)"
proof -
  assume inv: "gate_inv cfg g"
  show ?thesis
  proof (cases "c \<in> set (running g)")
    case False
    then show ?thesis using inv by (simp add: complete_def)
  next
    case True
    have len: "length (removeAll c (running g)) = length (running g) - 1"
      using True inv
      by (simp add: gate_inv_def gate_weak_def distinct_remove1_removeAll [symmetric] length_remove1)
    have pos: "length (running g) \<ge> 1"
      using True by (cases "running g") auto
    have "gate_weak cfg (g\<lparr>running := removeAll c (running g), activeRequests := activeRequests g - 1\<rparr>)"
      using inv len pos unfolding gate_inv_def gate_weak_def
      by (auto simp: distinct_removeAll)
    then show ?thesis
      using True by (simp add: complete_def processQueue_def gate_inv_processQueue_loop)
  qed
qed

lemma gate_inv_timeout: "gate_inv cfg g \<Longrightarrow> gate_inv cfg (queueTimeoutFires cfg c g)"
proof -
  assume inv: "gate_inv cfg g"
  show ?thesis
  proof (cases "c \<in> set (timers g)")
    case False
    then show ?thesis using inv by (simp add: queueTimeoutFires_def)
  next
    case True
    have dq: "distinct (requestQueue g)"
      using inv by (simp add: gate_inv_def gate_weak_def strict_sorted_iff)
    have cq: "c \<in> set (requestQueue g)"
      using True inv by (simp add: gate_inv_def gate_weak_def)
    have rm: "set (remove1 c (requestQueue g)) = set (requestQueue g) - {c}"
      using dq by simp
    have srt: "sorted_wrt (<) (remove1 c (requestQueue g))"
      using inv dq by (simp add: gate_inv_def gate_weak_def strict_sorted_iff sorted_remove1)
    have ne: "remove1 c (requestQueue g) \<noteq> [] \<longrightarrow> requestQueue g \<noteq> []"
      by auto
    show ?thesis
      using inv True cq rm srt ne unfolding gate_inv_def gate_weak_def queueTimeoutFires_def
      by (auto)
  qed
qed

lemma gate_inv_step: "gate_inv cfg g \<Longrightarrow> gate_inv cfg (gate_step cfg g e)"
  by (cases e) (simp_all add: gate_inv_call gate_inv_complete gate_inv_timeout)

lemma gate_inv_foldl: "gate_inv cfg g \<Longrightarrow> gate_inv cfg (foldl (gate_step cfg) g evs)"
  by (induction evs arbitrary: g) (simp_all add: gate_inv_step)

lemma gate_inv_run: "gate_inv cfg (gate_run cfg evs)"
  by (simp add: gate_run_def gate_inv_foldl gate_inv_init)



lemma rl1_three_calls:
  "gate_run rl1 [Call, Call, Call] =
     \<lparr>activeRequests = 1, requestQueue = [1, 2], timers = [1, 2], running = [0],
      admitted = [0], rejected = [], next_id = 3\<rparr>"
  by (simp add: gate_run_def gate_init_def executeWithRateLimit_def rl1_def)

lemma rl1_three_calls_complete:
  "gate_run rl1 [Call, Call, Call, Complete 0] =
     \<lparr>activeRequests = 1, requestQueue = [2], timers = [2], running = [1],
      admitted = [0, 1], rejected = [], next_id = 3\<rparr>"
  by (simp add: gate_run_def gate_init_def executeWithRateLimit_def complete_def processQueue_def rl1_def)

lemma rejected_processQueue_loop: "rejected (processQueue_loop cfg q g) = rejected g"
  by (induction cfg q g rule: processQueue_loop.induct) auto

lemma rejected_step: "set (rejected g) \<subseteq> set (rejected (gate_step cfg g e))"
  by (cases e)
     (auto simp: executeWithRateLimit_def Let_def complete_def processQueue_def
        rejected_processQueue_loop queueTimeoutFires_def)

lemma rejected_foldl: "set (rejected g) \<subseteq> set (rejected (foldl (gate_step cfg) g evs))"
proof (induction evs arbitrary: g)
  case Nil
  then show ?case by simp
next
  case (Cons e evs)
  show ?case
    using rejected_step [of g cfg e] Cons [of "gate_step cfg g e"] by auto
qed



subsection \<open>Bounded concurrency and FIFO admission (claim C4)\<close>



subsection \<open>Queue timeout (claim C8)\<close>

text \<open>
  Claim C8: when the timer of a queued caller \<open>c\<close> fires (its wait has exceeded
  \<open>queueTimeout\<close>), the caller is rejected with the timeout error and its item is
  removed from the queue; whatever happens afterwards (\<open>evs'\<close>), the caller stays
  rejected and is never in the queue, never admitted and never executing.
\<close>

theorem queue_timeout_removes:
  assumes queued: "c \<in> set (requestQueue (gate_run cfg evs))"
  shows "err_code (timeoutError (queueTimeout cfg)) = TIMEOUT
       \<and> (c, timeoutError (queueTimeout cfg)) \<in> set (rejected (gate_run cfg (evs @ [QueueTimeout c])))
       \<and> c \<notin> set (requestQueue (gate_run cfg (evs @ [QueueTimeout c])))
       \<and> (c, timeoutError (queueTimeout cfg)) \<in> set (rejected (gate_run cfg (evs @ QueueTimeout c # evs')))
       \<and> c \<notin> set (requestQueue (gate_run cfg (evs @ QueueTimeout c # evs')))
       \<and> c \<notin> set (admitted (gate_run cfg (evs @ QueueTimeout c # evs')))
       \<and> c \<notin> set (running (gate_run cfg (evs @ QueueTimeout c # evs')))"
proof -
  let ?g = "gate_run cfg evs"
  let ?g1 = "queueTimeoutFires cfg c ?g"
  let ?g2 = "gate_run cfg (evs @ QueueTimeout c # evs')"
  have inv: "gate_inv cfg ?g" by (rule gate_inv_run)
  have armed: "c \<in> set (timers ?g)"
    using inv queued by (simp add: gate_inv_def gate_weak_def)
  have g1: "gate_run cfg (evs @ [QueueTimeout c]) = ?g1"
    by (simp add: gate_run_def)
  have g2: "?g2 = foldl (gate_step cfg) ?g1 evs'"
    by (simp add: gate_run_def)
  have rej1: "(c, timeoutError (queueTimeout cfg)) \<in> set (rejected ?g1)"
    using armed by (simp add: queueTimeoutFires_def)
  have inv1: "gate_inv cfg ?g1"
    using g1 gate_inv_run [of cfg "evs @ [QueueTimeout c]"] by simp
  have q1: "c \<notin> set (requestQueue ?g1)"
    using inv1 rej1 by (force simp: gate_inv_def gate_weak_def)
  have rej2: "(c, timeoutError (queueTimeout cfg)) \<in> set (rejected ?g2)"
    using rej1 rejected_foldl [of ?g1 cfg evs'] g2 by auto
  have inv2: "gate_inv cfg ?g2" by (rule gate_inv_run)
  have out: "c \<notin> set (requestQueue ?g2) \<and> c \<notin> set (admitted ?g2)"
    using inv2 rej2 by (force simp: gate_inv_def gate_weak_def)
  have "set (running ?g2) \<subseteq> set (admitted ?g2)"
    using inv2 by (simp add: gate_inv_def gate_weak_def)
  then have "c \<notin> set (running ?g2)"
    using out by auto
  moreover have "err_code (timeoutError (queueTimeout cfg)) = TIMEOUT"
    by (simp add: timeoutError_def newFetchtiumError_def)
  ultimately show ?thesis
    using rej1 q1 rej2 out g1 by simp
qed

theorem queue_timeout_removes_witness:
  "1 \<in> set (requestQueue (gate_run rl1 [Call, Call, Call]))
   \<and> 1 \<notin> set (admitted (gate_run rl1 [Call, Call, Call, QueueTimeout 1, Complete 0, Complete 2]))
   \<and> 1 \<notin> set (requestQueue (gate_run rl1 [Call, Call, Call, QueueTimeout 1, Complete 0, Complete 2]))
   \<and> admitted (gate_run rl1 [Call, Call, Call, QueueTimeout 1, Complete 0, Complete 2]) = [0, 2]
   \<and> rejected (gate_run rl1 [Call, Call, Call, QueueTimeout 1, Complete 0, Complete 2]) = [(1, timeoutError 30000)]"
proof -
  have queued: "1 \<in> set (requestQueue (gate_run rl1 [Call, Call, Call]))"
    by (simp add: rl1_three_calls)
  have never: "1 \<notin> set (admitted (gate_run rl1 [Call, Call, Call, QueueTimeout 1, Complete 0, Complete 2]))
      \<and> 1 \<notin> set (requestQueue (gate_run rl1 [Call, Call, Call, QueueTimeout 1, Complete 0, Complete 2]))"
    using queue_timeout_removes [OF queued, of "[Complete 0, Complete 2]"] by simp
  have run: "gate_run rl1 [Call, Call, Call, QueueTimeout 1, Complete 0, Complete 2] =
     \<lparr>activeRequests = 0, requestQueue = [], timers = [], running = [],
      admitted = [0, 2], rejected = [(1, timeoutError 30000)], next_id = 3\<rparr>"
    by (simp add: gate_run_def gate_init_def executeWithRateLimit_def complete_def processQueue_def
        queueTimeoutFires_def rl1_def)
  have adm: "admitted (gate_run rl1 [Call, Call, Call, QueueTimeout 1, Complete 0, Complete 2]) = [0, 2]"
    unfolding run by simp
  have rej: "rejected (gate_run rl1 [Call, Call, Call, QueueTimeout 1, Complete 0, Complete 2]) = [(1, timeoutError 30000)]"
    unfolding run by simp
  show ?thesis
    using queued never adm rej by blast
qed

section \<open>Batch lemmas\<close>











subsection \<open>Stop on error (claim C2)\<close>








end
